theory Spec2Isabelle
  imports Main
begin

section \<open>Strings as the services use them\<close>

text \<open>
  JavaScript strings are modelled as \<^typ>\<open>string\<close>; a character stands for one code
  unit below 256. The white space of \<^verbatim>\<open>\s\<close> and of \<^verbatim>\<open>String.prototype.trim\<close> in
  that range is TAB, LF, VT, FF, CR, SPACE and NBSP.
\<close>

definition isSpace :: "char \<Rightarrow> bool" where
  "isSpace c = (c \<in> set [CHR 0x09, CHR 0x0A, CHR 0x0B, CHR 0x0C, CHR 0x0D, CHR 0x20, CHR 0xA0])"

text \<open>The character class \<^verbatim>\<open>[A-Za-z0-9]\<close>.\<close>

definition isAlnum :: "char \<Rightarrow> bool" where
  "isAlnum c = (let n = (of_char c :: nat)
                in (48 \<le> n \<and> n \<le> 57) \<or> (65 \<le> n \<and> n \<le> 90) \<or> (97 \<le> n \<and> n \<le> 122))"

text \<open>\<^verbatim>\<open>s.trim()\<close>\<close>

definition trim :: "string \<Rightarrow> string" where
  "trim s = rev (dropWhile isSpace (rev (dropWhile isSpace s)))"

text \<open>\<^verbatim>\<open>s.replace(/\s+/g, ' ')\<close>: every maximal run of white space becomes one space.\<close>

function collapse_ws :: "string \<Rightarrow> string" where
  "collapse_ws [] = []"
| "collapse_ws (c # cs) =
     (if isSpace c then CHR 0x20 # collapse_ws (dropWhile isSpace cs)
      else c # collapse_ws cs)"
  by pat_completeness auto
termination
  by (relation "measure length") (auto simp: length_dropWhile_le less_Suc_eq_le)

text \<open>\<^verbatim>\<open>s.replace(/[\\/]/g, '-')\<close>: a backslash or a slash becomes a dash.\<close>

definition replace_sep :: "string \<Rightarrow> string" where
  "replace_sep s = map (\<lambda>c. if c = CHR 0x5C \<or> c = CHR 0x2F then CHR 0x2D else c) s"

text \<open>
  \<^verbatim>\<open>/\.[A-Za-z0-9]{1,10}$/.test(s)\<close>: for some \<open>k\<close> from 1 to 10 the last \<open>k\<close>
  characters are alphanumeric and the character before them is a dot.
\<close>

definition hasExt :: "string \<Rightarrow> bool" where
  "hasExt s = list_ex (\<lambda>k. k < length s \<and> s ! (length s - k - 1) = CHR 0x2E
                          \<and> list_all isAlnum (drop (length s - k) s)) [1..<11]"

text \<open>\<^verbatim>\<open>s.startsWith(p)\<close>\<close>

definition startsWith :: "string \<Rightarrow> string \<Rightarrow> bool" where
  "startsWith s p = (take (length p) s = p)"

section \<open>Errors\<close>

text \<open>
  \<open>CustomError\<close> carries a message and a status code; a plain \<open>Error\<close> has no status
  code, and the error handler's \<^verbatim>\<open>let { statusCode = 500, message } = error\<close> reports 500.
\<close>

datatype error = CustomError string nat | Error string

fun statusCode :: "error \<Rightarrow> nat" where
  "statusCode (CustomError m c) = c"
| "statusCode (Error m) = 500"

section \<open>Object store (utils/storage.ts)\<close>

type_synonym bytes = "nat list"

record s3_object =
  body :: bytes
  contentType :: string
  metadata :: "(string \<times> string) list"

type_synonym bucket = "string \<rightharpoonup> s3_object"

datatype aws_error = AWSError (code: string) (message: string)

text \<open>
  What the services cannot decide themselves is a parameter: the table of the
  \<^verbatim>\<open>mime-types\<close> package, the \<^verbatim>\<open>sharp\<close> pipeline (\<open>None\<close> when it throws), and the
  requests to S3 that fail (with the error they fail with) although the bucket could
  answer.
\<close>

record world =
  mime_extension :: "string \<Rightarrow> string option"
  sharp_jpeg :: "bytes \<Rightarrow> bytes option"
  head_error :: "string \<Rightarrow> aws_error option"
  upload_error :: "string \<Rightarrow> string option"
  delete_error :: "string \<Rightarrow> string option"

text \<open>\<^verbatim>\<open>s3.headObject\<close>: a missing key is the error with code \<^verbatim>\<open>NotFound\<close>.\<close>

definition headObject :: "world \<Rightarrow> bucket \<Rightarrow> string \<Rightarrow> aws_error + unit" where
  "headObject w b key =
     (case head_error w key of
        Some e \<Rightarrow> Inl e
      | None \<Rightarrow> (if b key = None then Inl (AWSError ''NotFound'' ''Not Found'') else Inr ()))"

text \<open>\<open>StorageService.fileExists\<close> (storage.ts 168-185)\<close>

definition fileExists :: "world \<Rightarrow> bucket \<Rightarrow> string \<Rightarrow> error + bool" where
  "fileExists w b key =
     (case headObject w b key of
        Inr u \<Rightarrow> Inr True
      | Inl e \<Rightarrow> (if code e = ''NotFound'' then Inr False
                 else Inl (Error (''Failed to check if file exists: '' @ message e))))"

text \<open>\<open>StorageService.uploadFile\<close> (storage.ts 58-87): the bucket after the call, or the error.\<close>

definition storage_uploadFile ::
  "world \<Rightarrow> bucket \<Rightarrow> bytes \<Rightarrow> string \<Rightarrow> string \<Rightarrow> (string \<times> string) list \<Rightarrow> error + bucket" where
  "storage_uploadFile w b fileBuffer key ctype meta =
     (case upload_error w key of
        Some m \<Rightarrow> Inl (Error (''Failed to upload file to storage: '' @ m))
      | None \<Rightarrow> Inr (b(key \<mapsto> \<lparr>body = fileBuffer, contentType = ctype, metadata = meta\<rparr>)))"

text \<open>\<open>StorageService.deleteFile\<close> (storage.ts 149-163)\<close>

definition storage_deleteFile :: "world \<Rightarrow> bucket \<Rightarrow> string \<Rightarrow> error + bucket" where
  "storage_deleteFile w b key =
     (case delete_error w key of
        Some m \<Rightarrow> Inl (Error (''Failed to delete file from storage: '' @ m))
      | None \<Rightarrow> Inr (b(key := None)))"

section \<open>Previews (utils/preview.ts)\<close>

text \<open>\<open>PreviewService.generateImagePreview\<close> (preview.ts 23-44)\<close>

definition generateImagePreview :: "world \<Rightarrow> bytes \<Rightarrow> error + bytes" where
  "generateImagePreview w fileBuffer =
     (case sharp_jpeg w fileBuffer of
        Some p \<Rightarrow> Inr p
      | None \<Rightarrow> Inl (Error ''Failed to generate image preview''))"

text \<open>\<open>PreviewService.generatePreview\<close> (preview.ts 49-65): \<open>None\<close> is the \<^verbatim>\<open>null\<close> result.\<close>

definition generatePreview :: "world \<Rightarrow> bytes \<Rightarrow> string \<Rightarrow> bytes option" where
  "generatePreview w fileBuffer mimeType =
     (if startsWith mimeType ''image/''
      then (case generateImagePreview w fileBuffer of Inr p \<Rightarrow> Some p | Inl e \<Rightarrow> None)
      else None)"

text \<open>\<open>PreviewService.uploadPreview\<close> (preview.ts 70-94): the key and the bucket, or the error.\<close>

definition uploadPreview ::
  "world \<Rightarrow> string \<Rightarrow> bucket \<Rightarrow> bytes \<Rightarrow> string \<Rightarrow> error + (string \<times> bucket)" where
  "uploadPreview w nowIso b previewBuffer originalFileKey =
     (let previewKey = originalFileKey @ ''_preview.jpg''
      in case storage_uploadFile w b previewBuffer previewKey ''image/jpeg''
                [(''originalFile'', originalFileKey), (''generatedAt'', nowIso)] of
           Inr b' \<Rightarrow> Inr (previewKey, b')
         | Inl e \<Rightarrow> Inl (Error ''Failed to upload preview''))"

section \<open>Data model\<close>

text \<open>
  A row of the \<open>File\<close> table and a row of the \<open>Share\<close> table, with the fields the
  services read and write. Dates are milliseconds since the epoch; a nullable column is
  an \<open>option\<close>.
\<close>

record file_row =
  file_id :: string
  name :: string
  originalName :: string
  file_size :: nat
  mimeType :: string
  storageKey :: string
  previewKey :: "string option"
  tags :: "string list"
  folder :: "string option"
  isDeleted :: bool
  deletedAt :: "int option"
  ownerId :: string
  createdAt :: int
  updatedAt :: int

record share_row =
  share_id :: string
  token :: string
  expiresAt :: int
  isActive :: bool
  fileId :: string
  createdById :: string
  share_createdAt :: int

text \<open>\<open>FileResponse\<close> (fileService.ts 31-43)\<close>

record FileResponse =
  r_id :: string
  r_name :: string
  r_originalName :: string
  r_size :: nat
  r_mimeType :: string
  r_storageKey :: string
  r_previewKey :: "string option"
  r_tags :: "string list"
  r_folder :: "string option"
  r_createdAt :: int
  r_updatedAt :: int

text \<open>\<open>FileUploadData\<close> (fileService.ts 10-19)\<close>

record FileUploadData =
  originalname :: string
  buffer :: bytes
  mimetype :: string
  u_size :: nat
  u_name :: "string option"
  u_folder :: "string option"
  u_tags :: "string list option"
  userId :: string

text \<open>The state the services act on: the bucket and the two tables.\<close>

record state =
  objects :: bucket
  files :: "file_row list"
  shares :: "share_row list"

text \<open>
  \<open>mapFileToResponse\<close> (fileService.ts 423-437): \<^verbatim>\<open>x || undefined\<close> turns an empty
  string into an absent field.
\<close>

definition truthy :: "string option \<Rightarrow> string option" where
  "truthy x = (case x of None \<Rightarrow> None | Some s \<Rightarrow> (if s = [] then None else Some s))"

definition mapFileToResponse :: "file_row \<Rightarrow> FileResponse" where
  "mapFileToResponse f =
     \<lparr>r_id = file_id f, r_name = name f, r_originalName = originalName f,
      r_size = file_size f, r_mimeType = mimeType f, r_storageKey = storageKey f,
      r_previewKey = truthy (previewKey f), r_tags = tags f, r_folder = truthy (folder f),
      r_createdAt = createdAt f, r_updatedAt = updatedAt f\<rparr>"

text \<open>\<^verbatim>\<open>orderBy: { createdAt: 'desc' }\<close>, rows of equal date in table order.\<close>

definition orderByCreatedAtDesc :: "file_row list \<Rightarrow> file_row list" where
  "orderByCreatedAtDesc fs = sort_key (\<lambda>f. - createdAt f) fs"

section \<open>Upload (fileService.ts 49-129)\<close>

text \<open>Lines 53-58: the extension of the mime type (\<^verbatim>\<open>|| ''\<close>) and the category.\<close>

definition upload_extension :: "world \<Rightarrow> FileUploadData \<Rightarrow> string" where
  "upload_extension w d = (case mime_extension w (mimetype d) of None \<Rightarrow> [] | Some e \<Rightarrow> e)"

definition upload_category :: "FileUploadData \<Rightarrow> string" where
  "upload_category d =
     (if startsWith (mimetype d) ''image/'' then ''image''
      else if startsWith (mimetype d) ''video/'' then ''video''
      else ''files'')"

text \<open>Line 61: \<^verbatim>\<open>(data.name || data.originalname || '').trim()\<close>\<close>

definition providedName :: "FileUploadData \<Rightarrow> string" where
  "providedName d =
     trim (case truthy (u_name d) of Some n \<Rightarrow> n | None \<Rightarrow> originalname d)"

text \<open>Lines 63-65\<close>

definition sanitizedBase :: "string \<Rightarrow> FileUploadData \<Rightarrow> string" where
  "sanitizedBase uuid d =
     (if providedName d \<noteq> [] then replace_sep (collapse_ws (providedName d))
      else if originalname d \<noteq> [] then originalname d
      else ''file-'' @ uuid)"

text \<open>Lines 67-70\<close>

definition finalName :: "world \<Rightarrow> string \<Rightarrow> FileUploadData \<Rightarrow> string" where
  "finalName w uuid d =
     (let base = sanitizedBase uuid d; extension = upload_extension w d
      in if hasExt base then base
         else if extension \<noteq> [] then base @ ''.'' @ extension else base)"

text \<open>Line 72\<close>

definition upload_storageKey :: "world \<Rightarrow> string \<Rightarrow> FileUploadData \<Rightarrow> string" where
  "upload_storageKey w uuid d =
     userId d @ ''/'' @ upload_category d @ ''/'' @ finalName w uuid d"

text \<open>
  Lines 108-120, \<^verbatim>\<open>prisma.file.create\<close>. Modelled from the spec: the Prisma schema is
  not among the sources; per the data model a new row gets its identifier and its two
  timestamps from the store, \<open>isDeleted = false\<close> and \<open>deletedAt = null\<close>.
\<close>

definition file_create ::
  "string \<Rightarrow> int \<Rightarrow> string \<Rightarrow> string \<Rightarrow> string option \<Rightarrow> FileUploadData \<Rightarrow> file_row" where
  "file_create newId now fname skey pkey d =
     \<lparr>file_id = newId, name = fname, originalName = originalname d, file_size = u_size d,
      mimeType = mimetype d, storageKey = skey, previewKey = truthy pkey,
      tags = (case u_tags d of None \<Rightarrow> [] | Some ts \<Rightarrow> ts),
      folder = truthy (u_folder d), isDeleted = False, deletedAt = None,
      ownerId = userId d, createdAt = now, updatedAt = now\<rparr>"

text \<open>
  \<open>FileService.uploadFile\<close>. \<open>uuid\<close> is the \<^verbatim>\<open>uuidv4()\<close> of line 52, \<open>newId\<close> the
  identifier the table gives the row, \<open>now\<close> and \<open>nowIso\<close> the clock. The result is what
  the caller gets and the state left behind, also when the call throws.
\<close>

definition uploadFile ::
  "world \<Rightarrow> string \<Rightarrow> string \<Rightarrow> int \<Rightarrow> string \<Rightarrow> FileUploadData \<Rightarrow> state
     \<Rightarrow> (error + FileResponse) \<times> state" where
  "uploadFile w uuid newId now nowIso d st =
     (let fname = finalName w uuid d;
          skey = upload_storageKey w uuid d;
          exists = (case fileExists w (objects st) skey of Inr b \<Rightarrow> b | Inl e \<Rightarrow> False)
      in if exists then (Inl (CustomError ''A file with this name already exists'' 409), st)
         else
           case storage_uploadFile w (objects st) (buffer d) skey (mimetype d)
                  [(''originalName'', originalname d), (''uploadedBy'', userId d),
                   (''uploadedAt'', nowIso)] of
             Inl e \<Rightarrow> (Inl e, st)
           | Inr b1 \<Rightarrow>
               (case generatePreview w (buffer d) (mimetype d) of
                  None \<Rightarrow>
                    (let row = file_create newId now fname skey None d
                     in (Inr (mapFileToResponse row),
                         st\<lparr>objects := b1, files := files st @ [row]\<rparr>))
                | Some previewBuffer \<Rightarrow>
                    (case uploadPreview w nowIso b1 previewBuffer skey of
                       Inl e \<Rightarrow> (Inl e, st\<lparr>objects := b1\<rparr>)
                     | Inr (pkey, b2) \<Rightarrow>
                         (let row = file_create newId now fname skey (Some pkey) d
                          in (Inr (mapFileToResponse row),
                              st\<lparr>objects := b2, files := files st @ [row]\<rparr>)))))"

section \<open>Listing, searching and the trash (fileService.ts 158-385)\<close>

text \<open>\<open>FileService.listFiles\<close> (158-187)\<close>

definition listFiles_where :: "string \<Rightarrow> bool \<Rightarrow> file_row \<Rightarrow> bool" where
  "listFiles_where uid includeDeleted f =
     (ownerId f = uid \<and> isDeleted f = (if includeDeleted then True else False)
      \<and> (if includeDeleted
         then (folder f = None \<or> (folder f \<noteq> None \<and> folder f \<noteq> Some ''__hidden_trash''))
         else True))"

definition listFiles :: "string \<Rightarrow> bool \<Rightarrow> state \<Rightarrow> FileResponse list" where
  "listFiles uid includeDeleted st =
     map mapFileToResponse (orderByCreatedAtDesc (filter (listFiles_where uid includeDeleted) (files st)))"

text \<open>\<open>FileSearchParams\<close> (fileService.ts 21-29)\<close>

record FileSearchParams =
  sp_userId :: string
  query :: "string option"
  sp_type :: "string option"
  sp_tags :: "string list option"
  sp_folder :: "string option"
  page :: "nat option"
  limit :: "nat option"

text \<open>
  The \<^verbatim>\<open>where\<close> object of \<open>searchFiles\<close>: one field per key the code assigns, absent
  until assigned. The members of \<^verbatim>\<open>OR\<close> are the two conditions of lines 236-237.
\<close>

datatype or_member = OriginalNameContainsInsensitive string | TagsHasSome "string list"

record search_where =
  w_ownerId :: string
  w_isDeleted :: bool
  w_OR :: "or_member list option"
  w_mimeType_startsWith :: "string option"
  w_tags_hasSome :: "string list option"
  w_folder :: "string option"

text \<open>Lines 229-251\<close>

definition build_where :: "FileSearchParams \<Rightarrow> search_where" where
  "build_where p =
     (let w0 = \<lparr>w_ownerId = sp_userId p, w_isDeleted = False, w_OR = None,
                w_mimeType_startsWith = None, w_tags_hasSome = None, w_folder = None\<rparr>;
          w1 = (case truthy (query p) of
                  Some q \<Rightarrow> w0\<lparr>w_OR := Some [OriginalNameContainsInsensitive q, TagsHasSome [q]]\<rparr>
                | None \<Rightarrow> w0);
          w2 = (case truthy (sp_type p) of
                  Some t \<Rightarrow> w1\<lparr>w_mimeType_startsWith := Some t\<rparr>
                | None \<Rightarrow> w1);
          w3 = (case sp_tags p of
                  Some ts \<Rightarrow> (if length ts > 0 then w2\<lparr>w_tags_hasSome := Some ts\<rparr> else w2)
                | None \<Rightarrow> w2);
          w4 = (case truthy (sp_folder p) of
                  Some fo \<Rightarrow> w3\<lparr>w_folder := Some fo\<rparr>
                | None \<Rightarrow> w3)
      in w4)"

text \<open>
  How the store reads the object. Prisma sends \<^verbatim>\<open>contains\<close> with
  \<^verbatim>\<open>mode: 'insensitive'\<close> to PostgreSQL as \<^verbatim>\<open>ILIKE\<close> with the pattern \<^verbatim>\<open>%query%\<close>, and
  \<^verbatim>\<open>startsWith\<close> as \<^verbatim>\<open>LIKE\<close> with the pattern \<^verbatim>\<open>prefix%\<close>; the text of the
  query is not escaped, so in it a percent sign stands for any run of characters, an
  underscore for any one character, and a backslash makes the next character literal.
\<close>

fun like :: "string \<Rightarrow> string \<Rightarrow> bool" where
  "like [] s = (s = [])"
| "like (p # ps) [] = (p = CHR 0x25 \<and> like ps [])"
| "like (p # ps) (x # xs) =
     (if p = CHR 0x5C then (case ps of [] \<Rightarrow> False | c # ps' \<Rightarrow> x = c \<and> like ps' xs)
      else if p = CHR 0x25 then (like ps (x # xs) \<or> like (p # ps) xs)
      else if p = CHR 0x5F then like ps xs
      else x = p \<and> like ps xs)"

text \<open>
  PostgreSQL refuses a pattern that ends in an unpaired backslash; \<open>like\<close> gives
  \<open>False\<close> there. The patterns of this service end in the percent sign that Prisma
  appends, so none of them does (lemma \<open>not_dangling\<close> below).
\<close>

fun dangling :: "string \<Rightarrow> bool" where
  "dangling [] = False"
| "dangling [p] = (p = CHR 0x5C)"
| "dangling (p # c # ps) = (if p = CHR 0x5C then dangling ps else dangling (c # ps))"

text \<open>
  \<^verbatim>\<open>ILIKE\<close> lower-cases the pattern and the column with the case mapping \<open>lc\<close> of the
  database's locale, a parameter, and then matches as \<^verbatim>\<open>LIKE\<close> does.
\<close>

definition prisma_contains_insensitive :: "(char \<Rightarrow> char) \<Rightarrow> string \<Rightarrow> string \<Rightarrow> bool" where
  "prisma_contains_insensitive lc col q = like (map lc (''%'' @ q @ ''%'')) (map lc col)"

definition prisma_startsWith :: "string \<Rightarrow> string \<Rightarrow> bool" where
  "prisma_startsWith col t = like (t @ ''%'') col"

text \<open>
  \<^verbatim>\<open>hasSome\<close> holds when the column shares an element with the list; the members of
  \<^verbatim>\<open>OR\<close> are alternatives and the keys of the object are conjoined.
\<close>

definition hasSome :: "string list \<Rightarrow> string list \<Rightarrow> bool" where
  "hasSome col ts = list_ex (\<lambda>t. t \<in> set col) ts"

fun or_member_holds :: "(char \<Rightarrow> char) \<Rightarrow> or_member \<Rightarrow> file_row \<Rightarrow> bool" where
  "or_member_holds lc (OriginalNameContainsInsensitive q) f =
     prisma_contains_insensitive lc (originalName f) q"
| "or_member_holds lc (TagsHasSome ts) f = hasSome (tags f) ts"

definition where_holds :: "(char \<Rightarrow> char) \<Rightarrow> search_where \<Rightarrow> file_row \<Rightarrow> bool" where
  "where_holds lc w f =
     (ownerId f = w_ownerId w \<and> isDeleted f = w_isDeleted w
      \<and> (case w_OR w of None \<Rightarrow> True | Some ms \<Rightarrow> list_ex (\<lambda>m. or_member_holds lc m f) ms)
      \<and> (case w_mimeType_startsWith w of None \<Rightarrow> True | Some t \<Rightarrow> prisma_startsWith (mimeType f) t)
      \<and> (case w_tags_hasSome w of None \<Rightarrow> True | Some ts \<Rightarrow> hasSome (tags f) ts)
      \<and> (case w_folder w of None \<Rightarrow> True | Some fo \<Rightarrow> folder f = Some fo))"

text \<open>The result of \<open>searchFiles\<close> (fileService.ts 216-222)\<close>

record SearchResult =
  res_files :: "FileResponse list"
  res_total :: nat
  res_page :: nat
  res_limit :: nat
  res_totalPages :: nat

text \<open>
  \<open>FileService.searchFiles\<close> (216-277), for a database of case mapping \<open>lc\<close>.
  \<^verbatim>\<open>params.page || 1\<close> and \<^verbatim>\<open>params.limit || 20\<close>
  replace an absent or zero value; \<^verbatim>\<open>Math.ceil(total / limit)\<close> is a rounded-up quotient.
\<close>

definition search_page :: "FileSearchParams \<Rightarrow> nat" where
  "search_page p = (case page p of None \<Rightarrow> 1 | Some n \<Rightarrow> (if n = 0 then 1 else n))"

definition search_limit :: "FileSearchParams \<Rightarrow> nat" where
  "search_limit p = (case limit p of None \<Rightarrow> 20 | Some n \<Rightarrow> (if n = 0 then 20 else n))"

definition searchFiles :: "(char \<Rightarrow> char) \<Rightarrow> FileSearchParams \<Rightarrow> state \<Rightarrow> SearchResult" where
  "searchFiles lc p st =
     (let pg = search_page p; lim = search_limit p;
          skip = (pg - 1) * lim;
          wh = build_where p;
          found = take lim (drop skip (orderByCreatedAtDesc (filter (where_holds lc wh) (files st))));
          total = length (filter (where_holds lc wh) (files st));
          totalPages = (total + lim - 1) div lim
      in \<lparr>res_files = map mapFileToResponse found, res_total = total, res_page = pg,
          res_limit = lim, res_totalPages = totalPages\<rparr>)"

text \<open>\<open>FileService.deleteFile\<close> (282-309)\<close>

definition deleteFile :: "int \<Rightarrow> string \<Rightarrow> string \<Rightarrow> state \<Rightarrow> (error + unit) \<times> state" where
  "deleteFile now fid uid st =
     (case find (\<lambda>f. file_id f = fid \<and> ownerId f = uid \<and> isDeleted f = False) (files st) of
        None \<Rightarrow> (Inl (CustomError ''File not found'' 404), st)
      | Some f \<Rightarrow>
          (Inr (), st\<lparr>files := map (\<lambda>g. if file_id g = fid
                                          then g\<lparr>isDeleted := True, deletedAt := Some now\<rparr>
                                          else g) (files st)\<rparr>))"

text \<open>\<open>FileService.restoreFile\<close> (358-385)\<close>

definition restoreFile :: "string \<Rightarrow> string \<Rightarrow> state \<Rightarrow> (error + unit) \<times> state" where
  "restoreFile fid uid st =
     (case find (\<lambda>f. file_id f = fid \<and> ownerId f = uid \<and> isDeleted f = True) (files st) of
        None \<Rightarrow> (Inl (CustomError ''File not found in trash'' 404), st)
      | Some f \<Rightarrow>
          (Inr (), st\<lparr>files := map (\<lambda>g. if file_id g = fid
                                          then g\<lparr>isDeleted := False, deletedAt := None\<rparr>
                                          else g) (files st)\<rparr>))"

text \<open>
  \<open>FileService.permanentlyDeleteFiles\<close> (314-354). The loop of lines 330-337 deletes
  the object and, when the row has a non-empty preview key, the preview; an error of
  either deletion is dropped.
\<close>

definition delete_ignoring :: "world \<Rightarrow> bucket \<Rightarrow> string \<Rightarrow> bucket" where
  "delete_ignoring w b key = (case storage_deleteFile w b key of Inr b' \<Rightarrow> b' | Inl e \<Rightarrow> b)"

fun purge_objects :: "world \<Rightarrow> bucket \<Rightarrow> file_row list \<Rightarrow> bucket" where
  "purge_objects w b [] = b"
| "purge_objects w b (f # fs) =
     (let b1 = delete_ignoring w b (storageKey f);
          b2 = (case truthy (previewKey f) of Some k \<Rightarrow> delete_ignoring w b1 k | None \<Rightarrow> b1)
      in purge_objects w b2 fs)"

definition permanentlyDeleteFiles ::
  "world \<Rightarrow> string \<Rightarrow> string list \<Rightarrow> state \<Rightarrow> (error + nat) \<times> state" where
  "permanentlyDeleteFiles w uid fileIds st =
     (if length fileIds = 0 then (Inl (CustomError ''fileIds array is required'' 400), st)
      else
        (let fs = filter (\<lambda>f. ownerId f = uid \<and> file_id f \<in> set fileIds \<and> isDeleted f = True) (files st);
             b' = purge_objects w (objects st) fs;
             doomed = (\<lambda>f. ownerId f = uid \<and> file_id f \<in> set (map file_id fs) \<and> isDeleted f = True);
             count = length (filter doomed (files st))
         in (Inr count, st\<lparr>objects := b', files := filter (\<lambda>f. \<not> doomed f) (files st)\<rparr>)))"

section \<open>Shares (services/shareService.ts)\<close>

text \<open>\<open>ShareService.getFileByToken\<close> (85-124); \<open>now\<close> is \<^verbatim>\<open>new Date()\<close>.\<close>

definition getFileByToken :: "int \<Rightarrow> string \<Rightarrow> state \<Rightarrow> error + (file_row \<times> share_row)" where
  "getFileByToken now tok st =
     (case find (\<lambda>s. token s = tok \<and> isActive s = True \<and> expiresAt s > now) (shares st) of
        None \<Rightarrow> Inl (CustomError ''Share link not found or expired'' 404)
      | Some share \<Rightarrow>
          (case find (\<lambda>f. file_id f = fileId share \<and> isDeleted f = False) (files st) of
             None \<Rightarrow> Inl (CustomError ''File not found or has been deleted'' 404)
           | Some file \<Rightarrow> Inr (file, share)))"

text \<open>\<open>ShareService.deactivateShare\<close> (160-183)\<close>

definition deactivateShare :: "string \<Rightarrow> string \<Rightarrow> state \<Rightarrow> (error + unit) \<times> state" where
  "deactivateShare sid uid st =
     (case find (\<lambda>s. share_id s = sid \<and> createdById s = uid) (shares st) of
        None \<Rightarrow> (Inl (CustomError ''Share not found'' 404), st)
      | Some share \<Rightarrow>
          (Inr (), st\<lparr>shares := map (\<lambda>s. if share_id s = sid then s\<lparr>isActive := False\<rparr> else s)
                                     (shares st)\<rparr>))"

section \<open>The specification's wording\<close>

text \<open>
  The name the specification prefers: the desired name when one is given, the original
  name otherwise.
\<close>

definition preferredName :: "FileUploadData \<Rightarrow> string" where
  "preferredName d = (case u_name d of None \<Rightarrow> originalname d
                        | Some n \<Rightarrow> (if n = [] then originalname d else n))"

text \<open>White space is collapsed: no two neighbouring characters are both white space.\<close>

fun single_spaced :: "string \<Rightarrow> bool" where
  "single_spaced (x # y # r) = (\<not> (isSpace x \<and> isSpace y) \<and> single_spaced (y # r))"
| "single_spaced [x] = True"
| "single_spaced [] = True"

text \<open>\<open>q\<close> occurs in \<open>s\<close> as a substring.\<close>

fun contains :: "string \<Rightarrow> string \<Rightarrow> bool" where
  "contains [] q = (q = [])"
| "contains (c # cs) q = (startsWith (c # cs) q \<or> contains cs q)"

text \<open>
  The matching rule of Search for a query \<open>q\<close>: the original name contains \<open>q\<close>
  whatever the case, or a tag equals \<open>q\<close>; and every other filter that is present holds
  as well: the owner, not deleted, the prefix of the mime type, one of the requested tags,
  the folder.
\<close>

definition search_matches ::
  "(char \<Rightarrow> char) \<Rightarrow> string \<Rightarrow> FileSearchParams \<Rightarrow> file_row \<Rightarrow> bool" where
  "search_matches lc q p f =
     ((contains (map lc (originalName f)) (map lc q) \<or> q \<in> set (tags f))
      \<and> ownerId f = sp_userId p \<and> isDeleted f = False
      \<and> (case truthy (sp_type p) of None \<Rightarrow> True | Some t \<Rightarrow> startsWith (mimeType f) t)
      \<and> (case sp_tags p of None \<Rightarrow> True | Some ts \<Rightarrow> ts = [] \<or> set ts \<inter> set (tags f) \<noteq> {})
      \<and> (case truthy (sp_folder p) of None \<Rightarrow> True | Some fo \<Rightarrow> folder f = Some fo))"

text \<open>The characters that a \<^verbatim>\<open>LIKE\<close> pattern does not take literally.\<close>

definition like_meta :: "char set" where
  "like_meta = {CHR 0x25, CHR 0x5F, CHR 0x5C}"

section \<open>Example data\<close>

definition mimeTable :: "string \<Rightarrow> string option" where
  "mimeTable m = (if m = ''application/pdf'' then Some ''pdf''
                  else if m = ''image/png'' then Some ''png''
                  else if m = ''text/plain'' then Some ''txt'' else None)"

text \<open>A world where every request is answered, and three where one kind of request fails.\<close>

definition quiet :: world where
  "quiet = \<lparr>mime_extension = mimeTable, sharp_jpeg = (\<lambda>b. Some [255, 216]),
            head_error = (\<lambda>k. None), upload_error = (\<lambda>k. None), delete_error = (\<lambda>k. None)\<rparr>"

definition denied :: world where
  "denied = quiet\<lparr>head_error := (\<lambda>k. Some (AWSError ''Forbidden'' ''Access Denied''))\<rparr>"

definition previewStoreDown :: world where
  "previewStoreDown = quiet\<lparr>upload_error :=
       (\<lambda>k. if k = ''u1/image/cat.png_preview.jpg'' then Some ''SlowDown'' else None)\<rparr>"

definition emptyState :: state where
  "emptyState = \<lparr>objects = Map.empty, files = [], shares = []\<rparr>"

definition takenState :: state where
  "takenState = emptyState\<lparr>objects := [''u1/files/notes.txt'' \<mapsto>
      \<lparr>body = [111, 108, 100], contentType = ''text/plain'', metadata = []\<rparr>]\<rparr>"

definition mkUpload :: "string \<Rightarrow> string option \<Rightarrow> string \<Rightarrow> FileUploadData" where
  "mkUpload orig desired mime =
     \<lparr>originalname = orig, buffer = [110, 101, 119], mimetype = mime, u_size = 3,
      u_name = desired, u_folder = None, u_tags = None, userId = ''u1''\<rparr>"

definition notes_txt :: FileUploadData where
  "notes_txt = mkUpload ''notes.txt'' None ''text/plain''"

definition cat_png :: FileUploadData where
  "cat_png = mkUpload ''cat.png'' None ''image/png''"

definition report_PDF :: FileUploadData where
  "report_PDF = mkUpload ''report.PDF'' None ''application/pdf''"

definition nameless :: FileUploadData where
  "nameless = mkUpload [] None ''text/plain''"

definition blankNamed :: FileUploadData where
  "blankNamed = mkUpload ''my  file.txt'' (Some '' '') ''text/plain''"

text \<open>An upload with a blank desired name and a path in its original name.\<close>

definition blankNamedPath :: FileUploadData where
  "blankNamedPath = mkUpload ''a/b  c.txt'' (Some '' '') ''text/plain''"

text \<open>The lower-casing of a Latin-1 locale: the letters A to Z and those from U+00C0 to U+00DE.\<close>

definition latin1_lower :: "char \<Rightarrow> char" where
  "latin1_lower c =
     (let n = (of_char c :: nat)
      in if (65 \<le> n \<and> n \<le> 90) \<or> (192 \<le> n \<and> n \<le> 222 \<and> n \<noteq> 215)
         then char_of (n + 32) else c)"

definition mkFile :: "string \<Rightarrow> string \<Rightarrow> string \<Rightarrow> string list \<Rightarrow> bool \<Rightarrow> int \<Rightarrow> file_row" where
  "mkFile i owner orig ts del created =
     \<lparr>file_id = i, name = orig, originalName = orig, file_size = 3, mimeType = ''text/plain'',
      storageKey = owner @ ''/files/'' @ orig, previewKey = None, tags = ts, folder = None,
      isDeleted = del, deletedAt = (if del then Some 50 else None), ownerId = owner,
      createdAt = created, updatedAt = created\<rparr>"

text \<open>
  The fixture of the specification for Search: a name match without the tag
  \<open>important\<close>, a tag match without it, and two rows that have it.
\<close>

definition searchState :: state where
  "searchState = emptyState\<lparr>files :=
     [mkFile ''a'' ''u1'' ''work.txt'' [] False 40,
      mkFile ''b'' ''u1'' ''b.txt'' [''work''] False 30,
      mkFile ''c'' ''u1'' ''c.txt'' [''work'', ''important''] False 20,
      mkFile ''d'' ''u1'' ''HomeWORK.txt'' [''important''] False 10]\<rparr>"

definition searchParams :: FileSearchParams where
  "searchParams = \<lparr>sp_userId = ''u1'', query = Some ''work'', sp_type = None,
                   sp_tags = Some [''important''], sp_folder = None, page = None, limit = None\<rparr>"

text \<open>A query and a mime type prefix with an underscore in them.\<close>

definition wildcardParams :: FileSearchParams where
  "wildcardParams = \<lparr>sp_userId = ''u1'', query = Some ''w_rk'', sp_type = None,
                     sp_tags = None, sp_folder = None, page = None, limit = None\<rparr>"

definition wildcardTypeParams :: FileSearchParams where
  "wildcardTypeParams = \<lparr>sp_userId = ''u1'', query = Some ''b'', sp_type = Some ''te_t'',
                         sp_tags = None, sp_folder = None, page = None, limit = None\<rparr>"

definition pageParams :: FileSearchParams where
  "pageParams = \<lparr>sp_userId = ''u1'', query = None, sp_type = None,
                 sp_tags = None, sp_folder = None, page = Some 1, limit = Some 2\<rparr>"

text \<open>A trash with a deleted and a live row of \<open>u1\<close> and a deleted row of \<open>u2\<close>.\<close>

definition trashState :: state where
  "trashState = emptyState\<lparr>files :=
     [mkFile ''f1'' ''u1'' ''old.txt'' [] True 10,
      mkFile ''f2'' ''u1'' ''live.txt'' [] False 20,
      mkFile ''f3'' ''u2'' ''other.txt'' [] True 30]\<rparr>"

text \<open>
  Three calls in a row: \<open>u1\<close> uploads an image named \<open>cat.png_preview.jpg\<close>, then the
  image \<open>cat.png\<close>, whose preview is stored under the key of the first, and then
  soft-deletes \<open>cat.png\<close>.
\<close>

definition preview_named :: FileUploadData where
  "preview_named = mkUpload ''cat.png_preview.jpg'' None ''image/jpeg''"


text \<open>One live file with one active share that expires at time 100.\<close>

definition theShare :: share_row where
  "theShare = \<lparr>share_id = ''s1'', token = ''tok-1'', expiresAt = 100, isActive = True,
               fileId = ''f2'', createdById = ''u1'', share_createdAt = 1\<rparr>"

definition shareState :: state where
  "shareState = emptyState\<lparr>files := [mkFile ''f2'' ''u1'' ''live.txt'' [] False 20],
                            shares := [theShare]\<rparr>"

section \<open>Evaluation on concrete inputs\<close>

lemma upt_1_11: "[1..<11] = [1, 2, 3, 4, 5, 6, 7, 8, 9, 10::nat]"
  by code_simp

lemma hasExt_unfold:
  "hasExt s = list_ex (\<lambda>k. k < length s \<and> s ! (length s - k - 1) = CHR 0x2E
                          \<and> list_all isAlnum (drop (length s - k) s)) [1, 2, 3, 4, 5, 6, 7, 8, 9, 10]"
  by (simp only: hasExt_def upt_1_11)

lemmas upload_eval = uploadFile_def fileExists_def headObject_def storage_uploadFile_def
  generatePreview_def generateImagePreview_def uploadPreview_def upload_storageKey_def
  upload_category_def finalName_def sanitizedBase_def providedName_def upload_extension_def
  truthy_def trim_def isSpace_def isAlnum_def replace_sep_def startsWith_def file_create_def
  mapFileToResponse_def hasExt_unfold mimeTable_def quiet_def denied_def previewStoreDown_def
  emptyState_def takenState_def mkUpload_def notes_txt_def cat_png_def report_PDF_def
  nameless_def blankNamed_def blankNamedPath_def preview_named_def preferredName_def Let_def

section \<open>Name resolution of Upload\<close>

lemma replace_sep_no_sep: "CHR 0x2F \<notin> set (replace_sep s) \<and> CHR 0x5C \<notin> set (replace_sep s)"
  by (auto simp: replace_sep_def)

lemma single_spaced_Cons:
  "single_spaced (x # t) =
     ((case t of [] \<Rightarrow> True | y # r \<Rightarrow> \<not> (isSpace x \<and> isSpace y)) \<and> single_spaced t)"
  by (cases t) auto

lemma dropWhile_head: "dropWhile P xs = [] \<or> (\<exists>e es. dropWhile P xs = e # es \<and> \<not> P e)"
  by (metis hd_dropWhile list.exhaust list.sel(1))

lemma collapse_ws_single_spaced: "single_spaced (collapse_ws s)"
proof (induction s rule: collapse_ws.induct)
  case 1
  then show ?case by simp
next
  case (2 c cs)
  show ?case
  proof (cases "isSpace c")
    case True
    note IH = "2.IH"(1)[OF True]
    from dropWhile_head[of isSpace cs] show ?thesis
    proof
      assume d: "dropWhile isSpace cs = []"
      have "collapse_ws (c # cs) = [CHR 0x20]"
        using True by (simp only: collapse_ws.simps d if_True)
      then show ?thesis by simp
    next
      assume "\<exists>e es. dropWhile isSpace cs = e # es \<and> \<not> isSpace e"
      then obtain e es where e: "dropWhile isSpace cs = e # es" "\<not> isSpace e" by blast
      then have t: "collapse_ws (dropWhile isSpace cs) = e # collapse_ws es" by simp
      have "collapse_ws (c # cs) = CHR 0x20 # e # collapse_ws es"
        using True by (simp only: collapse_ws.simps t if_True)
      moreover have "single_spaced (e # collapse_ws es)" using IH t by simp
      ultimately show ?thesis using e(2) by simp
    qed
  next
    case False
    note IH = "2.IH"(2)[OF False]
    show ?thesis using False IH by (simp add: single_spaced_Cons split: list.splits)
  qed
qed

lemma isSpace_replace:
  "isSpace (if c = CHR 0x5C \<or> c = CHR 0x2F then CHR 0x2D else c) = isSpace c"
  by (auto simp: isSpace_def)

lemma replace_sep_single_spaced: "single_spaced (replace_sep s) = single_spaced s"
proof (induction s rule: single_spaced.induct)
  case (1 x y r)
  then show ?case unfolding replace_sep_def by (simp add: isSpace_replace)
qed (simp_all add: replace_sep_def)

lemma hasExt_dot: "hasExt s \<Longrightarrow> CHR 0x2E \<in> set s"
proof -
  assume "hasExt s"
  then obtain k where k: "k < length s" "s ! (length s - k - 1) = CHR 0x2E"
    unfolding hasExt_def list_ex_iff by blast
  have "length s - k - 1 < length s" using k(1) by simp
  then have "s ! (length s - k - 1) \<in> set s" by (rule nth_mem)
  then show ?thesis using k(2) by simp
qed

lemma providedName_preferred: "providedName d = trim (preferredName d)"
  by (simp add: providedName_def preferredName_def truthy_def split: option.splits)

lemma finalName_cases:
  "finalName w uuid d =
     (if hasExt (sanitizedBase uuid d) then sanitizedBase uuid d
      else case truthy (mime_extension w (mimetype d)) of
             Some e \<Rightarrow> sanitizedBase uuid d @ ''.'' @ e
           | None \<Rightarrow> sanitizedBase uuid d)"
  by (simp add: finalName_def upload_extension_def truthy_def Let_def split: option.splits)

lemma report_PDF_scenario:
  assumes "originalname d = ''report.PDF''" and "truthy (u_name d) = None"
      and "mimetype d = ''application/pdf''" and "userId d = ''u1''"
  shows "finalName w uuid d = ''report.PDF'' \<and> upload_storageKey w uuid d = ''u1/files/report.PDF''"
proof -
  have p: "providedName d = ''report.PDF''"
    using assms(1,2) by (simp add: providedName_def trim_def isSpace_def)
  have b: "sanitizedBase uuid d = ''report.PDF''"
    by (simp add: sanitizedBase_def p replace_sep_def isSpace_def)
  have h: "hasExt ''report.PDF''"
    by (simp add: hasExt_unfold isAlnum_def)
  have f: "finalName w uuid d = ''report.PDF''"
    by (simp add: finalName_cases b h)
  show ?thesis
    using assms(3,4) by (simp add: f upload_storageKey_def upload_category_def startsWith_def)
qed

text \<open>
  When the preferred name (the desired name if one is given, the original name otherwise)
  is not blank, the base is that name trimmed, with every run of white space collapsed
  and every path separator replaced by a dash; the extension of the mime type is appended
  only when the base has none; the storage key is owner, category and final name joined
  by slashes. The upload of \<open>report.PDF\<close> by \<open>u1\<close> keeps its name and gets the key
  \<open>u1/files/report.PDF\<close>.
\<close>

lemma upload_name_resolution:
  assumes "trim (preferredName d) \<noteq> []"
  shows "sanitizedBase uuid d = replace_sep (collapse_ws (trim (preferredName d)))
       \<and> single_spaced (sanitizedBase uuid d)
       \<and> CHR 0x2F \<notin> set (sanitizedBase uuid d) \<and> CHR 0x5C \<notin> set (sanitizedBase uuid d)
       \<and> finalName w uuid d =
           (if hasExt (sanitizedBase uuid d) then sanitizedBase uuid d
            else case truthy (mime_extension w (mimetype d)) of
                   Some e \<Rightarrow> sanitizedBase uuid d @ ''.'' @ e
                 | None \<Rightarrow> sanitizedBase uuid d)
       \<and> upload_category d =
           (if startsWith (mimetype d) ''image/'' then ''image''
            else if startsWith (mimetype d) ''video/'' then ''video'' else ''files'')
       \<and> upload_storageKey w uuid d = userId d @ ''/'' @ upload_category d @ ''/'' @ finalName w uuid d
       \<and> (originalname d = ''report.PDF'' \<and> u_name d = None \<and> mimetype d = ''application/pdf''
            \<and> userId d = ''u1''
          \<longrightarrow> finalName w uuid d = ''report.PDF''
              \<and> upload_storageKey w uuid d = ''u1/files/report.PDF'')"
proof -
  have b: "sanitizedBase uuid d = replace_sep (collapse_ws (trim (preferredName d)))"
    using assms by (simp add: sanitizedBase_def providedName_preferred)
  have s: "single_spaced (sanitizedBase uuid d)"
    by (simp add: b replace_sep_single_spaced collapse_ws_single_spaced)
  have n: "CHR 0x2F \<notin> set (sanitizedBase uuid d) \<and> CHR 0x5C \<notin> set (sanitizedBase uuid d)"
    unfolding b by (rule replace_sep_no_sep)
  have r: "originalname d = ''report.PDF'' \<and> u_name d = None \<and> mimetype d = ''application/pdf''
            \<and> userId d = ''u1''
          \<longrightarrow> finalName w uuid d = ''report.PDF''
              \<and> upload_storageKey w uuid d = ''u1/files/report.PDF''"
    using report_PDF_scenario[of d w uuid] by (simp add: truthy_def)
  have c: "upload_category d =
           (if startsWith (mimetype d) ''image/'' then ''image''
            else if startsWith (mimetype d) ''video/'' then ''video'' else ''files'')"
    by (simp add: upload_category_def)
  have k: "upload_storageKey w uuid d = userId d @ ''/'' @ upload_category d @ ''/'' @ finalName w uuid d"
    by (simp add: upload_storageKey_def)
  from b s n finalName_cases[of w uuid d] c k r show ?thesis
    by blast
qed

lemma upload_report_PDF:
  "finalName quiet ''6f1c'' report_PDF = ''report.PDF''
   \<and> upload_storageKey quiet ''6f1c'' report_PDF = ''u1/files/report.PDF''"
  using report_PDF_scenario[of report_PDF quiet "''6f1c''"]
  by (simp add: report_PDF_def mkUpload_def truthy_def)

text \<open>
  C4, at the inputs where it fails. The desired name is one space, so the trimmed name
  is empty and line 65 takes the original name as it came: \<open>my  file.txt\<close> keeps its
  two spaces and \<open>a/b  c.txt\<close> its slash, also in the storage key, although the same
  original names without a desired name become \<open>my file.txt\<close> and \<open>a-b c.txt\<close> on
  line 64.
\<close>

theorem upload_blank_name_keeps_raw_original:
  "u_name blankNamed = Some '' '' \<and> originalname blankNamed = ''my  file.txt''
   \<and> finalName quiet ''6f1c'' blankNamed = ''my  file.txt''
   \<and> upload_storageKey quiet ''6f1c'' blankNamed = ''u1/files/my  file.txt''
   \<and> \<not> single_spaced (finalName quiet ''6f1c'' blankNamed)
   \<and> finalName quiet ''6f1c'' (blankNamed\<lparr>u_name := None\<rparr>) = ''my file.txt''
   \<and> u_name blankNamedPath = Some '' '' \<and> originalname blankNamedPath = ''a/b  c.txt''
   \<and> finalName quiet ''6f1c'' blankNamedPath = ''a/b  c.txt''
   \<and> upload_storageKey quiet ''6f1c'' blankNamedPath = ''u1/files/a/b  c.txt''
   \<and> finalName quiet ''6f1c'' (blankNamedPath\<lparr>u_name := None\<rparr>) = ''a-b c.txt''"
proof -
  have f: "finalName quiet ''6f1c'' blankNamed = ''my  file.txt''"
    by (simp add: upload_eval)
  have k: "upload_storageKey quiet ''6f1c'' blankNamed = ''u1/files/my  file.txt''"
    by (simp add: upload_eval)
  have s: "\<not> single_spaced (finalName quiet ''6f1c'' blankNamed)"
    unfolding f by (simp add: isSpace_def)
  have n: "finalName quiet ''6f1c'' (blankNamed\<lparr>u_name := None\<rparr>) = ''my file.txt''"
    by (simp add: upload_eval)
  have f': "finalName quiet ''6f1c'' blankNamedPath = ''a/b  c.txt''"
    by (simp add: upload_eval blankNamedPath_def)
  have k': "upload_storageKey quiet ''6f1c'' blankNamedPath = ''u1/files/a/b  c.txt''"
    by (simp add: upload_eval blankNamedPath_def)
  have n': "finalName quiet ''6f1c'' (blankNamedPath\<lparr>u_name := None\<rparr>) = ''a-b c.txt''"
    by (simp add: upload_eval blankNamedPath_def)
  have d: "u_name blankNamed = Some '' '' \<and> originalname blankNamed = ''my  file.txt''
           \<and> u_name blankNamedPath = Some '' '' \<and> originalname blankNamedPath = ''a/b  c.txt''"
    by (simp add: blankNamed_def blankNamedPath_def mkUpload_def)
  from d f k s n f' k' n' show ?thesis by blast
qed

section \<open>Upload against the object store\<close>

lemma fileExists_Inl:
  "fileExists w b k = Inl e \<Longrightarrow> \<exists>m. e = Error (''Failed to check if file exists: '' @ m)"
  by (auto simp: fileExists_def split: sum.splits if_splits)

lemma fileExists_answers:
  "head_error w k = None \<Longrightarrow> fileExists w b k = Inr (b k \<noteq> None)"
  by (simp add: fileExists_def headObject_def)

text \<open>
  C8, as the code has it. When an object exists at the computed storage key and the
  store answers the existence check, the upload fails with the 409 error and leaves the
  bucket and the table as they were: nothing is written and no row is persisted.
\<close>

theorem upload_conflict_when_reported:
  assumes "objects st (upload_storageKey w uuid d) \<noteq> None"
      and "head_error w (upload_storageKey w uuid d) = None"
  shows "uploadFile w uuid newId now nowIso d st
           = (Inl (CustomError ''A file with this name already exists'' 409), st)
         \<and> statusCode (CustomError ''A file with this name already exists'' 409) = 409"
  using assms by (simp add: uploadFile_def fileExists_answers Let_def)

theorem upload_conflict_when_reported_witness:
  "objects takenState (upload_storageKey quiet ''6f1c'' notes_txt) \<noteq> None
   \<and> head_error quiet (upload_storageKey quiet ''6f1c'' notes_txt) = None
   \<and> uploadFile quiet ''6f1c'' ''f2'' 1000 ''2025-01-01T00:00:00.000Z'' notes_txt takenState
       = (Inl (CustomError ''A file with this name already exists'' 409), takenState)"
proof -
  have k: "upload_storageKey quiet ''6f1c'' notes_txt = ''u1/files/notes.txt''"
    by (simp add: upload_eval)
  have h1: "objects takenState (upload_storageKey quiet ''6f1c'' notes_txt) \<noteq> None"
    unfolding k by (simp add: takenState_def emptyState_def)
  have h2: "head_error quiet (upload_storageKey quiet ''6f1c'' notes_txt) = None"
    by (simp add: quiet_def)
  from upload_conflict_when_reported[OF h1 h2] h1 h2 show ?thesis
    by blast
qed

theorem upload_conflict_bypassed_counterexample:
  "objects takenState (upload_storageKey denied ''6f1c'' notes_txt) \<noteq> None
   \<and> fst (uploadFile denied ''6f1c'' ''f2'' 1000 ''2025-01-01T00:00:00.000Z'' notes_txt takenState)
       \<noteq> Inl (CustomError ''A file with this name already exists'' 409)
   \<and> objects (snd (uploadFile denied ''6f1c'' ''f2'' 1000 ''2025-01-01T00:00:00.000Z'' notes_txt takenState))
         (upload_storageKey denied ''6f1c'' notes_txt)
       \<noteq> objects takenState (upload_storageKey denied ''6f1c'' notes_txt)
   \<and> files (snd (uploadFile denied ''6f1c'' ''f2'' 1000 ''2025-01-01T00:00:00.000Z'' notes_txt takenState))
       \<noteq> files takenState"
  by (simp add: upload_eval)

text \<open>
  C9. When the existence check at the computed storage key fails with an error, the
  upload neither reports that error nor the conflict: it goes on to the write, and
  unless the write itself fails the key then holds the uploaded bytes, whatever it held
  before.
\<close>

theorem upload_existence_error_swallowed:
  assumes "fileExists w (objects st) (upload_storageKey w uuid d) = Inl e"
  shows "fst (uploadFile w uuid newId now nowIso d st) \<noteq> Inl e
       \<and> fst (uploadFile w uuid newId now nowIso d st)
           \<noteq> Inl (CustomError ''A file with this name already exists'' 409)
       \<and> (upload_error w (upload_storageKey w uuid d) = None \<longrightarrow>
            objects (snd (uploadFile w uuid newId now nowIso d st)) (upload_storageKey w uuid d)
              = Some \<lparr>body = buffer d, contentType = mimetype d,
                      metadata = [(''originalName'', originalname d), (''uploadedBy'', userId d),
                                  (''uploadedAt'', nowIso)]\<rparr>)"
proof -
  obtain m where e: "e = Error (''Failed to check if file exists: '' @ m)"
    using fileExists_Inl[OF assms] by blast
  show ?thesis using assms unfolding e
    by (auto simp: uploadFile_def Let_def storage_uploadFile_def uploadPreview_def
        split: option.splits sum.splits)
qed

theorem upload_existence_error_swallowed_witness:
  "fileExists denied (objects takenState) (upload_storageKey denied ''6f1c'' notes_txt)
     = Inl (Error ''Failed to check if file exists: Access Denied'')
   \<and> upload_error denied (upload_storageKey denied ''6f1c'' notes_txt) = None
   \<and> objects takenState (upload_storageKey denied ''6f1c'' notes_txt)
       = Some \<lparr>body = [111, 108, 100], contentType = ''text/plain'', metadata = []\<rparr>
   \<and> objects (snd (uploadFile denied ''6f1c'' ''f2'' 1000 ''2025-01-01T00:00:00.000Z'' notes_txt takenState))
         (upload_storageKey denied ''6f1c'' notes_txt)
       = Some \<lparr>body = buffer notes_txt, contentType = mimetype notes_txt,
               metadata = [(''originalName'', originalname notes_txt), (''uploadedBy'', userId notes_txt),
                           (''uploadedAt'', ''2025-01-01T00:00:00.000Z'')]\<rparr>"
proof -
  have h: "fileExists denied (objects takenState) (upload_storageKey denied ''6f1c'' notes_txt)
             = Inl (Error ''Failed to check if file exists: Access Denied'')"
    by (simp add: upload_eval)
  have u: "upload_error denied (upload_storageKey denied ''6f1c'' notes_txt) = None"
    by (simp add: denied_def quiet_def)
  have o: "objects takenState (upload_storageKey denied ''6f1c'' notes_txt)
       = Some \<lparr>body = [111, 108, 100], contentType = ''text/plain'', metadata = []\<rparr>"
    by (simp add: upload_eval)
  from upload_existence_error_swallowed[OF h, of "''f2''" 1000 "''2025-01-01T00:00:00.000Z''"] h u o
  show ?thesis by blast
qed

text \<open>A preview that \<^verbatim>\<open>sharp\<close> cannot generate does not stop the upload.\<close>

lemma upload_preview_generation_failure_nonfatal:
  assumes "sharp_jpeg w (buffer d) = None"
      and "fileExists w (objects st) (upload_storageKey w uuid d) = Inr False"
      and "upload_error w (upload_storageKey w uuid d) = None"
  shows "\<exists>r. fst (uploadFile w uuid newId now nowIso d st) = Inr r \<and> r_previewKey r = None"
  using assms
  by (simp add: uploadFile_def Let_def storage_uploadFile_def generatePreview_def
      generateImagePreview_def mapFileToResponse_def file_create_def truthy_def)

text \<open>
  C1, at the input where it fails. \<open>u1\<close> uploads the image \<open>cat.png\<close> into an empty
  bucket; the preview is generated, and the store refuses the write of
  \<open>u1/image/cat.png_preview.jpg\<close>. The upload throws \<open>Failed to upload preview\<close>: the
  caller gets no File, the image stays in the bucket and no row is persisted.
\<close>

theorem upload_preview_store_failure_propagates:
  "generatePreview previewStoreDown (buffer cat_png) (mimetype cat_png) = Some [255, 216]
   \<and> uploadFile previewStoreDown ''6f1c'' ''f1'' 1000 ''2025-01-01T00:00:00.000Z'' cat_png emptyState
     = (Inl (Error ''Failed to upload preview''),
        emptyState\<lparr>objects := [''u1/image/cat.png'' \<mapsto>
            \<lparr>body = buffer cat_png, contentType = ''image/png'',
             metadata = [(''originalName'', ''cat.png''), (''uploadedBy'', ''u1''),
                         (''uploadedAt'', ''2025-01-01T00:00:00.000Z'')]\<rparr>]\<rparr>)
   \<and> statusCode (Error ''Failed to upload preview'') = 500"
  by (simp add: upload_eval)

text \<open>
  C10. With no desired name and an empty original name the base is \<open>file-\<close> followed by
  the identifier generated for the upload (a UUID has no dot), the extension of the mime
  type is appended when the table knows one, and the storage key is built from that
  name; with the key free and the store accepting writes the upload returns a File of
  that name.
\<close>

theorem upload_nameless_falls_back_to_uuid:
  assumes "truthy (u_name d) = None" and "originalname d = []" and "CHR 0x2E \<notin> set uuid"
  shows "sanitizedBase uuid d = ''file-'' @ uuid
       \<and> finalName w uuid d =
           (case truthy (mime_extension w (mimetype d)) of
              Some e \<Rightarrow> ''file-'' @ uuid @ ''.'' @ e
            | None \<Rightarrow> ''file-'' @ uuid)
       \<and> upload_storageKey w uuid d = userId d @ ''/'' @ upload_category d @ ''/'' @ finalName w uuid d
       \<and> (fileExists w (objects st) (upload_storageKey w uuid d) = Inr False
            \<and> upload_error w = (\<lambda>k. None)
          \<longrightarrow> (\<exists>r. fst (uploadFile w uuid newId now nowIso d st) = Inr r
                   \<and> r_name r = finalName w uuid d
                   \<and> r_storageKey r = upload_storageKey w uuid d))"
proof -
  have b: "sanitizedBase uuid d = ''file-'' @ uuid"
    using assms by (simp add: sanitizedBase_def providedName_def trim_def)
  have "\<not> hasExt (''file-'' @ uuid)"
    using hasExt_dot[of "''file-'' @ uuid"] assms(3) by auto
  then have f: "finalName w uuid d =
          (case truthy (mime_extension w (mimetype d)) of
             Some e \<Rightarrow> ''file-'' @ uuid @ ''.'' @ e
           | None \<Rightarrow> ''file-'' @ uuid)"
    by (simp add: finalName_cases b split: option.splits)
  have k: "upload_storageKey w uuid d = userId d @ ''/'' @ upload_category d @ ''/'' @ finalName w uuid d"
    by (simp add: upload_storageKey_def)
  have u: "fileExists w (objects st) (upload_storageKey w uuid d) = Inr False
            \<and> upload_error w = (\<lambda>k. None)
          \<longrightarrow> (\<exists>r. fst (uploadFile w uuid newId now nowIso d st) = Inr r
                   \<and> r_name r = finalName w uuid d
                   \<and> r_storageKey r = upload_storageKey w uuid d)"
    by (auto simp: uploadFile_def Let_def storage_uploadFile_def uploadPreview_def
        mapFileToResponse_def file_create_def split: option.splits sum.splits)
  from b f k u show ?thesis by blast
qed

theorem upload_nameless_falls_back_to_uuid_witness:
  "truthy (u_name nameless) = None \<and> originalname nameless = []
   \<and> CHR 0x2E \<notin> set ''3b241101-e2bb-4255-8caf-4136c566a962''
   \<and> fileExists quiet (objects emptyState)
        (upload_storageKey quiet ''3b241101-e2bb-4255-8caf-4136c566a962'' nameless) = Inr False
   \<and> upload_error quiet = (\<lambda>k. None)
   \<and> upload_storageKey quiet ''3b241101-e2bb-4255-8caf-4136c566a962'' nameless
       = ''u1/files/file-3b241101-e2bb-4255-8caf-4136c566a962.txt''
   \<and> (\<exists>r. fst (uploadFile quiet ''3b241101-e2bb-4255-8caf-4136c566a962'' ''f1'' 1000
                  ''2025-01-01T00:00:00.000Z'' nameless emptyState) = Inr r
          \<and> r_name r = finalName quiet ''3b241101-e2bb-4255-8caf-4136c566a962'' nameless
          \<and> r_storageKey r = upload_storageKey quiet ''3b241101-e2bb-4255-8caf-4136c566a962'' nameless)"
proof -
  have h1: "truthy (u_name nameless) = None"
    by (simp add: nameless_def mkUpload_def truthy_def)
  have h2: "originalname nameless = []"
    by (simp add: nameless_def mkUpload_def)
  have h3: "CHR 0x2E \<notin> set ''3b241101-e2bb-4255-8caf-4136c566a962''"
    by simp
  note T = upload_nameless_falls_back_to_uuid[OF h1 h2 h3, of quiet emptyState "''f1''" 1000
      "''2025-01-01T00:00:00.000Z''"]
  have m: "truthy (mime_extension quiet (mimetype nameless)) = Some ''txt''"
    by (simp add: quiet_def mimeTable_def nameless_def mkUpload_def truthy_def)
  from T have f0: "finalName quiet ''3b241101-e2bb-4255-8caf-4136c566a962'' nameless
             = (case truthy (mime_extension quiet (mimetype nameless)) of
                  Some e \<Rightarrow> ''file-'' @ ''3b241101-e2bb-4255-8caf-4136c566a962'' @ ''.'' @ e
                | None \<Rightarrow> ''file-'' @ ''3b241101-e2bb-4255-8caf-4136c566a962'')"
    by blast
  have f: "finalName quiet ''3b241101-e2bb-4255-8caf-4136c566a962'' nameless
             = ''file-3b241101-e2bb-4255-8caf-4136c566a962.txt''"
    unfolding f0 m by simp
  from T have k0: "upload_storageKey quiet ''3b241101-e2bb-4255-8caf-4136c566a962'' nameless
       = userId nameless @ ''/'' @ upload_category nameless @ ''/''
           @ finalName quiet ''3b241101-e2bb-4255-8caf-4136c566a962'' nameless"
    by blast
  have k: "upload_storageKey quiet ''3b241101-e2bb-4255-8caf-4136c566a962'' nameless
       = ''u1/files/file-3b241101-e2bb-4255-8caf-4136c566a962.txt''"
    unfolding k0 f by (simp add: upload_category_def startsWith_def nameless_def mkUpload_def)
  have e: "fileExists quiet (objects emptyState)
        (upload_storageKey quiet ''3b241101-e2bb-4255-8caf-4136c566a962'' nameless) = Inr False"
    by (simp add: fileExists_def headObject_def quiet_def emptyState_def)
  have u: "upload_error quiet = (\<lambda>k. None)"
    by (simp add: quiet_def)
  from T h1 h2 h3 e u k show ?thesis by blast
qed

section \<open>Search\<close>

lemma searchFiles_page:
  "res_files (searchFiles lc p st)
     = map mapFileToResponse
         (take (search_limit p) (drop ((search_page p - 1) * search_limit p)
            (orderByCreatedAtDesc (filter (where_holds lc (build_where p)) (files st)))))"
  by (simp add: searchFiles_def Let_def)

lemma searchFiles_total:
  "res_total (searchFiles lc p st) = length (filter (where_holds lc (build_where p)) (files st))"
  by (simp add: searchFiles_def Let_def)

lemma searchFiles_totalPages:
  "res_totalPages (searchFiles lc p st)
     = (length (filter (where_holds lc (build_where p)) (files st)) + search_limit p - 1)
         div search_limit p"
  by (simp add: searchFiles_def Let_def)

lemma hasSome_iff: "hasSome col ts \<longleftrightarrow> set ts \<inter> set col \<noteq> {}"
  by (auto simp: hasSome_def list_ex_iff)

lemma contains_iff_substring: "contains s q \<longleftrightarrow> (\<exists>a b. s = a @ q @ b)"
proof (induction s)
  case Nil
  then show ?case by simp
next
  case (Cons c cs)
  have sw: "startsWith (c # cs) q \<longleftrightarrow> (\<exists>b. c # cs = q @ b)"
    unfolding startsWith_def by (metis append_eq_conv_conj append_take_drop_id)
  show ?case
  proof
    assume "contains (c # cs) q"
    then consider "startsWith (c # cs) q" | "contains cs q" by auto
    then show "\<exists>a b. c # cs = a @ q @ b"
    proof cases
      case 1
      then obtain b where "c # cs = [] @ q @ b" using sw by auto
      then show ?thesis by blast
    next
      case 2
      then obtain a b where "cs = a @ q @ b" using Cons.IH by blast
      then have "c # cs = (c # a) @ q @ b" by simp
      then show ?thesis by blast
    qed
  next
    assume "\<exists>a b. c # cs = a @ q @ b"
    then obtain a b where ab: "c # cs = a @ q @ b" by blast
    show "contains (c # cs) q"
    proof (cases a)
      case Nil
      then have "startsWith (c # cs) q" using ab sw by auto
      then show ?thesis by simp
    next
      case (Cons x xs)
      then have "cs = xs @ q @ b" using ab by simp
      then show ?thesis using Cons.IH by auto
    qed
  qed
qed

subsection \<open>Patterns without wildcards\<close>

lemma not_dangling: "\<not> dangling (q @ ''%'')"
  by (induction q rule: dangling.induct) auto

lemma like_percent_all: "like ''%'' s"
  by (induction s) auto

lemma like_literal:
  "set q \<inter> like_meta = {} \<Longrightarrow> like (q @ r) s \<longleftrightarrow> (\<exists>t. s = q @ t \<and> like r t)"
proof (induction q arbitrary: s)
  case Nil
  then show ?case by simp
next
  case (Cons c q)
  then have c: "c \<noteq> CHR 0x25" "c \<noteq> CHR 0x5F" "c \<noteq> CHR 0x5C" and q: "set q \<inter> like_meta = {}"
    by (auto simp: like_meta_def)
  show ?case
  proof (cases s)
    case Nil
    then show ?thesis using c by simp
  next
    case (Cons x xs)
    then show ?thesis using c Cons.IH[OF q, of xs] by auto
  qed
qed

lemma like_percent:
  "like (CHR 0x25 # r) s \<longleftrightarrow> (\<exists>a t. s = a @ t \<and> like r t)"
proof (induction s)
  case Nil
  then show ?case by simp
next
  case (Cons x xs)
  show ?case
  proof
    assume "like (CHR 0x25 # r) (x # xs)"
    then consider "like r (x # xs)" | "like (CHR 0x25 # r) xs" by auto
    then show "\<exists>a t. x # xs = a @ t \<and> like r t"
    proof cases
      case 1
      then have "x # xs = [] @ (x # xs) \<and> like r (x # xs)" by simp
      then show ?thesis by blast
    next
      case 2
      then obtain a t where "xs = a @ t" "like r t" using Cons.IH by blast
      then have "x # xs = (x # a) @ t \<and> like r t" by simp
      then show ?thesis by blast
    qed
  next
    assume "\<exists>a t. x # xs = a @ t \<and> like r t"
    then obtain a t where at: "x # xs = a @ t" "like r t" by blast
    show "like (CHR 0x25 # r) (x # xs)"
    proof (cases a)
      case Nil
      then have "like r (x # xs)" using at by simp
      then show ?thesis by simp
    next
      case (Cons y ys)
      then have "xs = ys @ t" using at by simp
      then have "like (CHR 0x25 # r) xs" using Cons.IH at(2) by blast
      then show ?thesis by simp
    qed
  qed
qed

lemma like_contains:
  assumes "set q \<inter> like_meta = {}"
  shows "like (CHR 0x25 # q @ ''%'') s \<longleftrightarrow> contains s q"
proof -
  have "like (CHR 0x25 # q @ ''%'') s \<longleftrightarrow> (\<exists>a t. s = a @ t \<and> like (q @ ''%'') t)"
    by (rule like_percent)
  also have "\<dots> \<longleftrightarrow> (\<exists>a t. s = a @ t \<and> (\<exists>b. t = q @ b))"
    by (simp add: like_literal[OF assms] like_percent_all)
  also have "\<dots> \<longleftrightarrow> (\<exists>a b. s = a @ q @ b)" by auto
  finally show ?thesis by (simp add: contains_iff_substring)
qed

lemma prisma_contains_literal:
  assumes "lc (CHR 0x25) = CHR 0x25" and "set (map lc q) \<inter> like_meta = {}"
  shows "prisma_contains_insensitive lc col q = contains (map lc col) (map lc q)"
  using like_contains[OF assms(2), of "map lc col"]
  by (simp add: prisma_contains_insensitive_def assms(1))

lemma prisma_startsWith_literal:
  assumes "set t \<inter> like_meta = {}"
  shows "prisma_startsWith col t = startsWith col t"
proof -
  have "like (t @ ''%'') col \<longleftrightarrow> (\<exists>b. col = t @ b)"
    by (simp add: like_literal[OF assms] like_percent_all)
  also have "\<dots> \<longleftrightarrow> take (length t) col = t"
    by (metis append_eq_conv_conj append_take_drop_id)
  finally show ?thesis by (simp add: prisma_startsWith_def startsWith_def)
qed

lemma where_holds_query:
  assumes "query p = Some q" and "q \<noteq> []"
      and "lc (CHR 0x25) = CHR 0x25" and "set (map lc q) \<inter> like_meta = {}"
      and "case truthy (sp_type p) of None \<Rightarrow> True | Some t \<Rightarrow> set t \<inter> like_meta = {}"
  shows "where_holds lc (build_where p) f = search_matches lc q p f"
proof -
  have n: "prisma_contains_insensitive lc (originalName f) q
             = contains (map lc (originalName f)) (map lc q)"
    by (rule prisma_contains_literal[OF assms(3,4)])
  have t: "\<And>t. truthy (sp_type p) = Some t \<Longrightarrow> prisma_startsWith (mimeType f) t = startsWith (mimeType f) t"
    using assms(5) by (simp add: prisma_startsWith_literal)
  show ?thesis
    using assms(1,2) t
    by (auto simp: where_holds_def build_where_def search_matches_def Let_def n hasSome_iff
        truthy_def split: option.splits if_splits)
qed

subsection \<open>Pages\<close>

lemma pages_take:
  "concat (map (\<lambda>k. take n (drop (k * n) xs)) [0..<m]) = take (m * n) xs"
proof (induction m)
  case 0
  then show ?case by simp
next
  case (Suc m)
  have "take (m * n) xs @ take n (drop (m * n) xs) = take (m * n + n) xs"
    by (simp add: take_add)
  then show ?case using Suc by (simp add: add.commute)
qed

lemma ceil_covers: "0 < n \<Longrightarrow> (t::nat) \<le> ((t + n - 1) div n) * n"
proof -
  assume n: "0 < n"
  have "t + n - 1 = ((t + n - 1) div n) * n + (t + n - 1) mod n" by simp
  moreover have "(t + n - 1) mod n \<le> n - 1" using n by (simp add: less_Suc_eq_le[symmetric])
  ultimately show ?thesis using n by linarith
qed

lemma search_limit_pos: "0 < search_limit p"
  by (simp add: search_limit_def split: option.splits)

lemma build_where_page: "build_where (p\<lparr>page := x\<rparr>) = build_where p"
  by (simp add: build_where_def)

lemma searchFiles_pages_cover:
  "concat (map (\<lambda>k. res_files (searchFiles lc (p\<lparr>page := Some (Suc k)\<rparr>) st))
               [0..<res_totalPages (searchFiles lc p st)])
     = map mapFileToResponse (orderByCreatedAtDesc (filter (where_holds lc (build_where p)) (files st)))"
proof -
  let ?all = "orderByCreatedAtDesc (filter (where_holds lc (build_where p)) (files st))"
  let ?n = "search_limit p"
  let ?m = "res_totalPages (searchFiles lc p st)"
  have len: "length ?all = length (filter (where_holds lc (build_where p)) (files st))"
    by (simp add: orderByCreatedAtDesc_def)
  have m: "?m = (length ?all + ?n - 1) div ?n"
    by (simp add: searchFiles_def Let_def len)
  have pg: "\<And>k. res_files (searchFiles lc (p\<lparr>page := Some (Suc k)\<rparr>) st)
              = map mapFileToResponse (take ?n (drop (k * ?n) ?all))"
    by (simp add: searchFiles_def Let_def build_where_page search_page_def search_limit_def)
  have "concat (map (\<lambda>k. res_files (searchFiles lc (p\<lparr>page := Some (Suc k)\<rparr>) st)) [0..<?m])
      = concat (map (\<lambda>k. map mapFileToResponse (take ?n (drop (k * ?n) ?all))) [0..<?m])"
    by (simp only: pg)
  also have "\<dots> = map mapFileToResponse (concat (map (\<lambda>k. take ?n (drop (k * ?n) ?all)) [0..<?m]))"
    by (simp add: map_concat comp_def)
  also have "\<dots> = map mapFileToResponse (take (?m * ?n) ?all)"
    by (simp only: pages_take)
  also have "\<dots> = map mapFileToResponse ?all"
    using ceil_covers[OF search_limit_pos, of "length ?all" p] by (simp add: m)
  finally show ?thesis .
qed

subsection \<open>The fixture\<close>

lemma fixture_page_first:
  "map r_id (map mapFileToResponse
     (take (search_limit pageParams) (drop ((search_page pageParams - 1) * search_limit pageParams)
        (orderByCreatedAtDesc (filter (where_holds lc (build_where pageParams)) (files searchState))))))
     = [''a'', ''b'']"
  by (simp add: search_page_def search_limit_def build_where_def where_holds_def truthy_def
      orderByCreatedAtDesc_def mapFileToResponse_def mkFile_def emptyState_def searchState_def
      pageParams_def Let_def)

lemma fixture_page_skip:
  "map r_id (map mapFileToResponse (take 2 (drop (1 * 2)
        (orderByCreatedAtDesc (filter (where_holds lc (build_where pageParams)) (files searchState))))))
       = [''c'', ''d'']"
  by (simp add: build_where_def where_holds_def truthy_def
      orderByCreatedAtDesc_def mapFileToResponse_def mkFile_def emptyState_def searchState_def
      pageParams_def Let_def)

lemma fixture_page_second:
  "map r_id (res_files (searchFiles lc (pageParams\<lparr>page := Some 2\<rparr>) searchState)) = [''c'', ''d'']"
  by (simp add: searchFiles_page search_page_def search_limit_def build_where_def where_holds_def
      truthy_def orderByCreatedAtDesc_def mapFileToResponse_def mkFile_def emptyState_def
      searchState_def pageParams_def Let_def)

lemma fixture_page_total:
  "length (filter (where_holds lc (build_where pageParams)) (files searchState)) = 4"
  by (simp add: build_where_def where_holds_def truthy_def mkFile_def emptyState_def
      searchState_def pageParams_def Let_def)

lemma fixture_names:
  "map originalName (files searchState) = [''work.txt'', ''b.txt'', ''c.txt'', ''HomeWORK.txt'']"
  "map file_id (files searchState) = [''a'', ''b'', ''c'', ''d'']"
  by (simp_all add: searchState_def emptyState_def mkFile_def)

lemma fixture_work:
  "map file_id (filter (where_holds latin1_lower (build_where searchParams)) (files searchState))
     = [''c'', ''d'']"
  by code_simp

lemma fixture_work_page:
  "map r_id (res_files (searchFiles latin1_lower searchParams searchState)) = [''c'', ''d'']"
  by code_simp

lemma fixture_wildcard:
  "map r_id (res_files (searchFiles latin1_lower wildcardParams searchState)) = [''a'', ''d'']"
  by code_simp

lemma fixture_wildcard_literal:
  "filter (\<lambda>f. contains (map latin1_lower (originalName f)) (map latin1_lower ''w_rk'')
               \<or> ''w_rk'' \<in> set (tags f)) (files searchState) = []"
  by code_simp

lemma fixture_wildcard_type:
  "map r_id (res_files (searchFiles latin1_lower wildcardTypeParams searchState)) = [''b'']"
  by code_simp

lemma fixture_wildcard_type_literal:
  "filter (\<lambda>f. startsWith (mimeType f) ''te_t'') (files searchState) = []"
  by code_simp

text \<open>
  C3, as the code has it. Pages count from one: Search skips (page - 1) times pageSize
  rows of the ordered matches and takes pageSize of them, an absent or zero page being 1
  and an absent or zero pageSize 20. The total is the number of rows that satisfy the
  filter of the page, and the pages 1 to totalPages, one after the other, are all the
  matches.
\<close>

theorem search_pagination_offset:
  "res_files (searchFiles lc p st)
     = map mapFileToResponse
         (take (search_limit p) (drop ((search_page p - 1) * search_limit p)
            (orderByCreatedAtDesc (filter (where_holds lc (build_where p)) (files st)))))
   \<and> res_total (searchFiles lc p st) = length (filter (where_holds lc (build_where p)) (files st))
   \<and> search_page p = (case page p of None \<Rightarrow> 1 | Some n \<Rightarrow> if n = 0 then 1 else n)
   \<and> search_limit p = (case limit p of None \<Rightarrow> 20 | Some n \<Rightarrow> if n = 0 then 20 else n)
   \<and> concat (map (\<lambda>k. res_files (searchFiles lc (p\<lparr>page := Some (Suc k)\<rparr>) st))
               [0..<res_totalPages (searchFiles lc p st)])
     = map mapFileToResponse (orderByCreatedAtDesc (filter (where_holds lc (build_where p)) (files st)))"
  using searchFiles_page[of lc p st] searchFiles_total[of lc p st] searchFiles_pages_cover[of lc p st]
  by (simp add: search_page_def search_limit_def)

theorem search_pagination_offset_witness:
  "map r_id (res_files (searchFiles latin1_lower pageParams searchState)) = [''a'', ''b'']
   \<and> res_total (searchFiles latin1_lower pageParams searchState) = 4
   \<and> res_totalPages (searchFiles latin1_lower pageParams searchState) = 2
   \<and> map r_id (res_files (searchFiles latin1_lower (pageParams\<lparr>page := Some 2\<rparr>) searchState))
       = [''c'', ''d'']"
proof -
  note T = search_pagination_offset[of latin1_lower pageParams searchState]
  have a: "map r_id (res_files (searchFiles latin1_lower pageParams searchState)) = [''a'', ''b'']"
    unfolding conjunct1[OF T] by (rule fixture_page_first)
  have b: "res_total (searchFiles latin1_lower pageParams searchState) = 4"
    unfolding conjunct1[OF conjunct2[OF T]] by (rule fixture_page_total)
  have l: "search_limit pageParams = 2"
    by (simp add: search_limit_def pageParams_def)
  have c: "res_totalPages (searchFiles latin1_lower pageParams searchState) = 2"
    unfolding searchFiles_totalPages fixture_page_total l by simp
  from a b c fixture_page_second[of latin1_lower] show ?thesis by blast
qed

theorem search_skip_counterexample:
  "page pageParams = Some 1 \<and> limit pageParams = Some 2
   \<and> map r_id (res_files (searchFiles latin1_lower pageParams searchState)) = [''a'', ''b'']
   \<and> map r_id (map mapFileToResponse (take 2 (drop (1 * 2)
        (orderByCreatedAtDesc (filter (where_holds latin1_lower (build_where pageParams))
           (files searchState))))))
       = [''c'', ''d'']"
proof -
  have a: "map r_id (res_files (searchFiles latin1_lower pageParams searchState)) = [''a'', ''b'']"
    unfolding searchFiles_page by (rule fixture_page_first)
  have p: "page pageParams = Some 1 \<and> limit pageParams = Some 2"
    by (simp add: pageParams_def)
  from p a fixture_page_skip[of latin1_lower] show ?thesis by blast
qed

text \<open>
  C5, as the code has it. The query and the mime type prefix reach the store as
  patterns. For a non-empty query \<open>q\<close> that, lower-cased, has no percent sign,
  underscore or backslash, and a prefix that has none, the filter Search hands to the
  store holds of a row exactly when the row's original name contains \<open>q\<close> as a
  substring, the case of letters ignored, or one of its tags is \<open>q\<close>, and the row
  moreover belongs to the caller, is not deleted, and passes every filter that is
  present: its mime type starts with the requested prefix, it carries at least one of
  the requested tags, it lies in the requested folder. The total counts these rows and
  the page is cut from them; when they fit on the first page, the page is all of them.
\<close>

theorem search_query_filter:
  assumes "query p = Some q" and "q \<noteq> []"
      and "lc (CHR 0x25) = CHR 0x25" and "set (map lc q) \<inter> like_meta = {}"
      and "case truthy (sp_type p) of None \<Rightarrow> True | Some t \<Rightarrow> set t \<inter> like_meta = {}"
  shows "where_holds lc (build_where p) f = search_matches lc q p f
       \<and> contains (map lc (originalName f)) (map lc q)
           = (\<exists>a b. map lc (originalName f) = a @ map lc q @ b)
       \<and> res_total (searchFiles lc p st) = length (filter (search_matches lc q p) (files st))
       \<and> res_files (searchFiles lc p st)
           = map mapFileToResponse
               (take (search_limit p) (drop ((search_page p - 1) * search_limit p)
                  (orderByCreatedAtDesc (filter (search_matches lc q p) (files st)))))
       \<and> (search_page p = 1 \<and> res_total (searchFiles lc p st) \<le> search_limit p
          \<longrightarrow> res_files (searchFiles lc p st)
                = map mapFileToResponse
                    (orderByCreatedAtDesc (filter (search_matches lc q p) (files st))))"
proof -
  have w: "where_holds lc (build_where p) = search_matches lc q p"
    using where_holds_query[OF assms] by (rule ext)
  have t: "res_total (searchFiles lc p st) = length (filter (search_matches lc q p) (files st))"
    by (simp add: searchFiles_total w)
  have g: "res_files (searchFiles lc p st)
           = map mapFileToResponse
               (take (search_limit p) (drop ((search_page p - 1) * search_limit p)
                  (orderByCreatedAtDesc (filter (search_matches lc q p) (files st)))))"
    by (simp add: searchFiles_page w)
  have len: "length (orderByCreatedAtDesc (filter (search_matches lc q p) (files st)))
               = length (filter (search_matches lc q p) (files st))"
    by (simp add: orderByCreatedAtDesc_def)
  have a: "search_page p = 1 \<and> res_total (searchFiles lc p st) \<le> search_limit p
          \<longrightarrow> res_files (searchFiles lc p st)
                = map mapFileToResponse
                    (orderByCreatedAtDesc (filter (search_matches lc q p) (files st)))"
    unfolding g t using len by simp
  from w contains_iff_substring[of "map lc (originalName f)" "map lc q"] t g a
  show ?thesis by simp
qed

theorem search_query_filter_witness:
  "query searchParams = Some ''work'' \<and> ''work'' \<noteq> []
   \<and> latin1_lower (CHR 0x25) = CHR 0x25
   \<and> set (map latin1_lower ''work'') \<inter> like_meta = {}
   \<and> sp_type searchParams = None
   \<and> sp_tags searchParams = Some [''important'']
   \<and> map file_id (filter (search_matches latin1_lower ''work'' searchParams) (files searchState))
       = [''c'', ''d'']
   \<and> map r_id (res_files (searchFiles latin1_lower searchParams searchState)) = [''c'', ''d'']
   \<and> res_total (searchFiles latin1_lower searchParams searchState) = 2"
proof -
  have h1: "query searchParams = Some ''work''" by (simp add: searchParams_def)
  have h2: "''work'' \<noteq> []" by simp
  have h3: "latin1_lower (CHR 0x25) = CHR 0x25" by code_simp
  have l: "map latin1_lower ''work'' = ''work''" by code_simp
  have h4: "set (map latin1_lower ''work'') \<inter> like_meta = {}"
    unfolding l by (simp add: like_meta_def)
  have s: "sp_type searchParams = None" by (simp add: searchParams_def)
  have h5: "case truthy (sp_type searchParams) of None \<Rightarrow> True | Some t \<Rightarrow> set t \<inter> like_meta = {}"
    by (simp add: s truthy_def)
  have m: "search_matches latin1_lower ''work'' searchParams
             = where_holds latin1_lower (build_where searchParams)"
  proof (rule ext)
    fix f
    from search_query_filter[OF h1 h2 h3 h4 h5, of f searchState]
    show "search_matches latin1_lower ''work'' searchParams f
            = where_holds latin1_lower (build_where searchParams) f"
      by simp
  qed
  have i: "map file_id (filter (search_matches latin1_lower ''work'' searchParams) (files searchState))
             = [''c'', ''d'']"
    unfolding m by (rule fixture_work)
  have "length (map file_id (filter (where_holds latin1_lower (build_where searchParams))
                  (files searchState))) = 2"
    unfolding fixture_work by simp
  then have t: "res_total (searchFiles latin1_lower searchParams searchState) = 2"
    by (simp add: searchFiles_total)
  have g: "sp_tags searchParams = Some [''important'']" by (simp add: searchParams_def)
  from h1 h2 h3 h4 s g i fixture_work_page t show ?thesis by blast
qed

theorem search_wildcard_counterexample:
  "query wildcardParams = Some ''w_rk''
   \<and> map originalName (files searchState) = [''work.txt'', ''b.txt'', ''c.txt'', ''HomeWORK.txt'']
   \<and> map file_id (files searchState) = [''a'', ''b'', ''c'', ''d'']
   \<and> map r_id (res_files (searchFiles latin1_lower wildcardParams searchState)) = [''a'', ''d'']
   \<and> filter (\<lambda>f. contains (map latin1_lower (originalName f)) (map latin1_lower ''w_rk'')
                 \<or> ''w_rk'' \<in> set (tags f)) (files searchState) = []
   \<and> sp_type wildcardTypeParams = Some ''te_t''
   \<and> map r_id (res_files (searchFiles latin1_lower wildcardTypeParams searchState)) = [''b'']
   \<and> filter (\<lambda>f. startsWith (mimeType f) ''te_t'') (files searchState) = []"
proof -
  have q: "query wildcardParams = Some ''w_rk''" by (simp add: wildcardParams_def)
  have t: "sp_type wildcardTypeParams = Some ''te_t''" by (simp add: wildcardTypeParams_def)
  from q t fixture_names fixture_wildcard fixture_wildcard_literal fixture_wildcard_type
    fixture_wildcard_type_literal
  show ?thesis by blast
qed

section \<open>Trash: soft delete, restore, purge\<close>

lemma find_None_iff_all: "(find P xs = None) = (\<forall>x\<in>set xs. \<not> P x)"
  by (induction xs) auto

lemma find_SomeD: "find P xs = Some x \<Longrightarrow> P x \<and> x \<in> set xs"
  by (induction xs) (auto split: if_splits)

lemma deleteFile_ok_iff:
  "fst (deleteFile now fid uid st) = Inr ()
     \<longleftrightarrow> (\<exists>f\<in>set (files st). file_id f = fid \<and> ownerId f = uid \<and> isDeleted f = False)"
  by (auto simp: deleteFile_def find_None_iff_all split: option.splits dest: find_SomeD)

lemma deleteFile_fail:
  "fst (deleteFile now fid uid st) \<noteq> Inr ()
     \<Longrightarrow> deleteFile now fid uid st = (Inl (CustomError ''File not found'' 404), st)"
  by (auto simp: deleteFile_def split: option.splits)

lemma restoreFile_ok_iff:
  "fst (restoreFile fid uid st) = Inr ()
     \<longleftrightarrow> (\<exists>f\<in>set (files st). file_id f = fid \<and> ownerId f = uid \<and> isDeleted f = True)"
  by (auto simp: restoreFile_def find_None_iff_all split: option.splits dest: find_SomeD)

lemma restoreFile_fail:
  "fst (restoreFile fid uid st) \<noteq> Inr ()
     \<Longrightarrow> restoreFile fid uid st = (Inl (CustomError ''File not found in trash'' 404), st)"
  by (auto simp: restoreFile_def split: option.splits)

lemma deleteFile_files:
  "fst (deleteFile now fid uid st) = Inr () \<Longrightarrow>
   files (snd (deleteFile now fid uid st))
     = map (\<lambda>g. if file_id g = fid then g\<lparr>isDeleted := True, deletedAt := Some now\<rparr> else g) (files st)"
  by (auto simp: deleteFile_def split: option.splits)

lemma restoreFile_files:
  "fst (restoreFile fid uid st) = Inr () \<Longrightarrow>
   files (snd (restoreFile fid uid st))
     = map (\<lambda>g. if file_id g = fid then g\<lparr>isDeleted := False, deletedAt := None\<rparr> else g) (files st)"
  by (auto simp: restoreFile_def split: option.splits)

lemma set_orderBy: "set (orderByCreatedAtDesc fs) = set fs"
  by (simp add: orderByCreatedAtDesc_def)

lemma round_trip:
  assumes "f \<in> set (files st)" and "ownerId f = uid" and "isDeleted f = False"
  shows "fst (deleteFile now (file_id f) uid st) = Inr ()"
    and "f\<lparr>isDeleted := True, deletedAt := Some now\<rparr>
           \<in> set (files (snd (deleteFile now (file_id f) uid st)))"
    and "fst (restoreFile (file_id f) uid (snd (deleteFile now (file_id f) uid st))) = Inr ()"
    and "f\<lparr>isDeleted := False, deletedAt := None\<rparr>
           \<in> set (files (snd (restoreFile (file_id f) uid (snd (deleteFile now (file_id f) uid st)))))"
    and "mapFileToResponse f
           \<in> set (listFiles uid False (snd (restoreFile (file_id f) uid (snd (deleteFile now (file_id f) uid st)))))"
proof -
  let ?st1 = "snd (deleteFile now (file_id f) uid st)"
  let ?st2 = "snd (restoreFile (file_id f) uid ?st1)"
  show d: "fst (deleteFile now (file_id f) uid st) = Inr ()"
    using assms by (auto simp: deleteFile_ok_iff)
  show f1: "f\<lparr>isDeleted := True, deletedAt := Some now\<rparr> \<in> set (files ?st1)"
    using assms(1) by (force simp: deleteFile_files[OF d])
  show r: "fst (restoreFile (file_id f) uid ?st1) = Inr ()"
    unfolding restoreFile_ok_iff using f1 assms(2)
    by (intro bexI[of _ "f\<lparr>isDeleted := True, deletedAt := Some now\<rparr>"]) auto
  have "(\<lambda>g. if file_id g = file_id f then g\<lparr>isDeleted := False, deletedAt := None\<rparr> else g)
          (f\<lparr>isDeleted := True, deletedAt := Some now\<rparr>) \<in> set (files ?st2)"
    unfolding restoreFile_files[OF r] set_map using f1 by (rule imageI)
  then show f2: "f\<lparr>isDeleted := False, deletedAt := None\<rparr> \<in> set (files ?st2)"
    by simp
  have "mapFileToResponse (f\<lparr>isDeleted := False, deletedAt := None\<rparr>) \<in> set (listFiles uid False ?st2)"
    unfolding listFiles_def using f2 assms(2)
    by (auto simp: set_orderBy listFiles_where_def intro!: imageI)
  then show "mapFileToResponse f \<in> set (listFiles uid False ?st2)"
    by (simp add: mapFileToResponse_def)
qed

text \<open>
  C7. For a row \<open>f\<close> of the table that \<open>uid\<close> owns and that is not deleted, the soft
  delete succeeds and marks the row deleted at \<open>now\<close>; the restore that follows succeeds
  and leaves the row with \<open>isDeleted = false\<close> and \<open>deletedAt = null\<close>, and the listing
  of the owner's live files contains it again. A soft delete succeeds only when the
  table has a live row of that identifier and owner and otherwise fails with 404,
  changing nothing; a restore succeeds only when the table has a deleted one and
  otherwise fails with 404, changing nothing.
\<close>

theorem soft_delete_restore_round_trip:
  assumes "f \<in> set (files st)" and "ownerId f = uid" and "isDeleted f = False"
  shows "fst (deleteFile now (file_id f) uid st) = Inr ()
       \<and> f\<lparr>isDeleted := True, deletedAt := Some now\<rparr>
           \<in> set (files (snd (deleteFile now (file_id f) uid st)))
       \<and> fst (restoreFile (file_id f) uid (snd (deleteFile now (file_id f) uid st))) = Inr ()
       \<and> f\<lparr>isDeleted := False, deletedAt := None\<rparr>
           \<in> set (files (snd (restoreFile (file_id f) uid (snd (deleteFile now (file_id f) uid st)))))
       \<and> mapFileToResponse f
           \<in> set (listFiles uid False
                    (snd (restoreFile (file_id f) uid (snd (deleteFile now (file_id f) uid st)))))
       \<and> (fst (deleteFile now fid uid' st') = Inr ()
            \<or> deleteFile now fid uid' st' = (Inl (CustomError ''File not found'' 404), st'))
       \<and> (fst (deleteFile now fid uid' st') = Inr ())
            = (\<exists>g. g \<in> set (files st') \<and> file_id g = fid \<and> ownerId g = uid' \<and> isDeleted g = False)
       \<and> (fst (restoreFile fid uid' st') = Inr ()
            \<or> restoreFile fid uid' st' = (Inl (CustomError ''File not found in trash'' 404), st'))
       \<and> (fst (restoreFile fid uid' st') = Inr ())
            = (\<exists>g. g \<in> set (files st') \<and> file_id g = fid \<and> ownerId g = uid' \<and> isDeleted g = True)"
proof -
  have d: "fst (deleteFile now fid uid' st') = Inr ()
            \<or> deleteFile now fid uid' st' = (Inl (CustomError ''File not found'' 404), st')"
    using deleteFile_fail[of now fid uid' st'] by blast
  have d': "(fst (deleteFile now fid uid' st') = Inr ())
            = (\<exists>g. g \<in> set (files st') \<and> file_id g = fid \<and> ownerId g = uid' \<and> isDeleted g = False)"
    unfolding deleteFile_ok_iff by blast
  have r: "fst (restoreFile fid uid' st') = Inr ()
            \<or> restoreFile fid uid' st' = (Inl (CustomError ''File not found in trash'' 404), st')"
    using restoreFile_fail[of fid uid' st'] by blast
  have r': "(fst (restoreFile fid uid' st') = Inr ())
            = (\<exists>g. g \<in> set (files st') \<and> file_id g = fid \<and> ownerId g = uid' \<and> isDeleted g = True)"
    unfolding restoreFile_ok_iff by blast
  from round_trip[OF assms, of now] d d' r r' show ?thesis
    by (intro conjI)
qed

lemmas trash_eval = deleteFile_def restoreFile_def listFiles_def listFiles_where_def
  permanentlyDeleteFiles_def delete_ignoring_def storage_deleteFile_def truthy_def
  orderByCreatedAtDesc_def mapFileToResponse_def mkFile_def trashState_def emptyState_def
  quiet_def Let_def

theorem soft_delete_restore_round_trip_witness:
  "mkFile ''f2'' ''u1'' ''live.txt'' [] False 20 \<in> set (files trashState)
   \<and> map r_id (listFiles ''u1'' False (snd (deleteFile 60 ''f2'' ''u1'' trashState))) = []
   \<and> map r_id (listFiles ''u1'' False
        (snd (restoreFile ''f2'' ''u1'' (snd (deleteFile 60 ''f2'' ''u1'' trashState))))) = [''f2'']
   \<and> mapFileToResponse (mkFile ''f2'' ''u1'' ''live.txt'' [] False 20)
        \<in> set (listFiles ''u1'' False
              (snd (restoreFile ''f2'' ''u1'' (snd (deleteFile 60 ''f2'' ''u1'' trashState)))))
   \<and> deleteFile 60 ''f1'' ''u1'' trashState = (Inl (CustomError ''File not found'' 404), trashState)
   \<and> restoreFile ''f2'' ''u1'' trashState
        = (Inl (CustomError ''File not found in trash'' 404), trashState)"
proof -
  let ?f = "mkFile ''f2'' ''u1'' ''live.txt'' [] False 20"
  have h1: "?f \<in> set (files trashState)" by (simp add: trashState_def emptyState_def)
  have h2: "ownerId ?f = ''u1''" by (simp add: mkFile_def)
  have h3: "isDeleted ?f = False" by (simp add: mkFile_def)
  have i: "file_id ?f = ''f2''" by (simp add: mkFile_def)
  note T = soft_delete_restore_round_trip[OF h1 h2 h3, where now = 60 and fid = "''f1''"
      and uid' = "''u1''" and st' = trashState]
  have a: "mapFileToResponse ?f
        \<in> set (listFiles ''u1'' False
              (snd (restoreFile ''f2'' ''u1'' (snd (deleteFile 60 ''f2'' ''u1'' trashState)))))"
    using T unfolding i by blast
  have b: "map r_id (listFiles ''u1'' False (snd (deleteFile 60 ''f2'' ''u1'' trashState))) = []"
    by (simp add: trash_eval)
  have c: "map r_id (listFiles ''u1'' False
        (snd (restoreFile ''f2'' ''u1'' (snd (deleteFile 60 ''f2'' ''u1'' trashState))))) = [''f2'']"
    by (simp add: trash_eval)
  have d: "deleteFile 60 ''f1'' ''u1'' trashState = (Inl (CustomError ''File not found'' 404), trashState)"
    by (simp add: trash_eval)
  have e: "restoreFile ''f2'' ''u1'' trashState
        = (Inl (CustomError ''File not found in trash'' 404), trashState)"
    by (simp add: trash_eval)
  from h1 a b c d e show ?thesis by blast
qed














section \<open>Share links\<close>

lemma distinct_token_unique:
  "distinct (map token ss) \<Longrightarrow> s \<in> set ss \<Longrightarrow> s' \<in> set ss \<Longrightarrow> token s = token s' \<Longrightarrow> s = s'"
  by (meson distinct_map inj_onD)

lemma find_by_token:
  assumes "distinct (map token ss)" and "s \<in> set ss" and "token s = tok" and "P s"
  shows "find (\<lambda>s. token s = tok \<and> P s) ss = Some s"
proof -
  have "find (\<lambda>s. token s = tok \<and> P s) ss \<noteq> None"
    using assms by (auto simp: find_None_iff_all)
  then obtain s' where s': "find (\<lambda>s. token s = tok \<and> P s) ss = Some s'" by auto
  then have "s' \<in> set ss" "token s' = tok" using find_SomeD[OF s'] by auto
  then have "s' = s" using assms distinct_token_unique by metis
  then show ?thesis using s' by simp
qed

lemma getFileByToken_ok_first:
  "(\<exists>r. getFileByToken now tok st = Inr r) \<longleftrightarrow>
     (\<exists>s. find (\<lambda>s. token s = tok \<and> isActive s = True \<and> expiresAt s > now) (shares st) = Some s
          \<and> (\<exists>f. f \<in> set (files st) \<and> file_id f = fileId s \<and> isDeleted f = False))"
  by (auto simp: getFileByToken_def find_None_iff_all split: option.splits dest: find_SomeD)

lemma getFileByToken_ok_iff:
  assumes "distinct (map token (shares st))"
  shows "(\<exists>r. getFileByToken now tok st = Inr r) \<longleftrightarrow>
     (\<exists>s. s \<in> set (shares st) \<and> token s = tok \<and> isActive s = True \<and> now < expiresAt s
          \<and> (\<exists>f. f \<in> set (files st) \<and> file_id f = fileId s \<and> isDeleted f = False))"
  unfolding getFileByToken_ok_first
proof
  assume "\<exists>s. find (\<lambda>s. token s = tok \<and> isActive s = True \<and> now < expiresAt s) (shares st) = Some s \<and>
        (\<exists>f. f \<in> set (files st) \<and> file_id f = fileId s \<and> isDeleted f = False)"
  then show "\<exists>s. s \<in> set (shares st) \<and> token s = tok \<and> isActive s = True \<and> now < expiresAt s \<and>
       (\<exists>f. f \<in> set (files st) \<and> file_id f = fileId s \<and> isDeleted f = False)"
    by (auto dest: find_SomeD)
next
  assume "\<exists>s. s \<in> set (shares st) \<and> token s = tok \<and> isActive s = True \<and> now < expiresAt s \<and>
       (\<exists>f. f \<in> set (files st) \<and> file_id f = fileId s \<and> isDeleted f = False)"
  then obtain s where s: "s \<in> set (shares st)" "token s = tok" "isActive s = True \<and> now < expiresAt s"
     "\<exists>f. f \<in> set (files st) \<and> file_id f = fileId s \<and> isDeleted f = False" by blast
  have "find (\<lambda>s. token s = tok \<and> (isActive s = True \<and> now < expiresAt s)) (shares st) = Some s"
    using find_by_token[OF assms s(1) s(2), of "\<lambda>s. isActive s = True \<and> now < expiresAt s"] s(3) by simp
  then show "\<exists>s. find (\<lambda>s. token s = tok \<and> isActive s = True \<and> now < expiresAt s) (shares st) = Some s \<and>
        (\<exists>f. f \<in> set (files st) \<and> file_id f = fileId s \<and> isDeleted f = False)"
    using s(4) by auto
qed

lemma getFileByToken_404: "getFileByToken now tok st = Inl e \<Longrightarrow> statusCode e = 404"
  by (auto simp: getFileByToken_def split: option.splits)

lemma deactivate_then_resolve:
  assumes "distinct (map token (shares st))"
      and "s \<in> set (shares st)" and "share_id s = sid"
      and "fst (deactivateShare sid uid st) = Inr ()"
  shows "getFileByToken now' (token s) (snd (deactivateShare sid uid st))
           = Inl (CustomError ''Share link not found or expired'' 404)"
proof -
  let ?st' = "snd (deactivateShare sid uid st)"
  have sh: "shares ?st' = map (\<lambda>s. if share_id s = sid then s\<lparr>isActive := False\<rparr> else s) (shares st)"
    using assms(4) by (auto simp: deactivateShare_def split: option.splits)
  have "\<forall>x\<in>set (shares ?st'). \<not> (token x = token s \<and> isActive x = True \<and> expiresAt x > now')"
  proof
    fix x assume "x \<in> set (shares ?st')"
    then obtain y where y: "y \<in> set (shares st)" "x = (if share_id y = sid then y\<lparr>isActive := False\<rparr> else y)"
      unfolding sh by auto
    show "\<not> (token x = token s \<and> isActive x = True \<and> expiresAt x > now')"
    proof
      assume a: "token x = token s \<and> isActive x = True \<and> expiresAt x > now'"
      then have "token y = token s" using y(2) by (auto split: if_splits)
      then have "y = s" using distinct_token_unique[OF assms(1) y(1) assms(2)] by simp
      then have "x = s\<lparr>isActive := False\<rparr>" using y(2) assms(3) by simp
      then show False using a by simp
    qed
  qed
  then have "find (\<lambda>x. token x = token s \<and> isActive x = True \<and> expiresAt x > now') (shares ?st') = None"
    by (simp add: find_None_iff_all)
  then show ?thesis by (simp add: getFileByToken_def)
qed

lemma deactivate_by_owner:
  "(fst (deactivateShare sid uid st) = Inr ())
     = (\<exists>s. s \<in> set (shares st) \<and> share_id s = sid \<and> createdById s = uid)"
  by (auto simp: deactivateShare_def find_None_iff_all split: option.splits dest: find_SomeD)

text \<open>
  C2. With tokens unique among the shares, resolving a token succeeds exactly when a
  share of that token is active, expires strictly after \<open>now\<close>, and its file is in the
  table and not deleted; every other outcome is an error of status 404. A deactivation
  succeeds exactly for a share the caller created, and once it has succeeded, resolving
  the token of that share fails with 404 at any time, before the expiry as well.
\<close>

theorem share_resolve_valid_iff:
  assumes "distinct (map token (shares st))"
  shows "(\<exists>r. getFileByToken now tok st = Inr r)
           = (\<exists>s. s \<in> set (shares st) \<and> token s = tok \<and> isActive s = True \<and> now < expiresAt s
                \<and> (\<exists>f. f \<in> set (files st) \<and> file_id f = fileId s \<and> isDeleted f = False))
       \<and> ((\<exists>r. getFileByToken now tok st = Inr r)
            \<or> (\<exists>e. getFileByToken now tok st = Inl e \<and> statusCode e = 404))
       \<and> (fst (deactivateShare sid uid st) = Inr ())
           = (\<exists>s. s \<in> set (shares st) \<and> share_id s = sid \<and> createdById s = uid)
       \<and> (s \<in> set (shares st) \<and> share_id s = sid \<and> fst (deactivateShare sid uid st) = Inr ()
          \<longrightarrow> (\<exists>e. getFileByToken now' (token s) (snd (deactivateShare sid uid st)) = Inl e
                   \<and> statusCode e = 404))"
proof -
  have a: "(\<exists>r. getFileByToken now tok st = Inr r)
           = (\<exists>s. s \<in> set (shares st) \<and> token s = tok \<and> isActive s = True \<and> now < expiresAt s
                \<and> (\<exists>f. f \<in> set (files st) \<and> file_id f = fileId s \<and> isDeleted f = False))"
    using getFileByToken_ok_iff[OF assms] by simp
  have b: "(\<exists>r. getFileByToken now tok st = Inr r)
            \<or> (\<exists>e. getFileByToken now tok st = Inl e \<and> statusCode e = 404)"
    using getFileByToken_404[of now tok st] by (cases "getFileByToken now tok st") auto
  have c: "s \<in> set (shares st) \<and> share_id s = sid \<and> fst (deactivateShare sid uid st) = Inr ()
          \<longrightarrow> (\<exists>e. getFileByToken now' (token s) (snd (deactivateShare sid uid st)) = Inl e
                   \<and> statusCode e = 404)"
    using deactivate_then_resolve[OF assms, of s sid uid now'] by simp
  from a b deactivate_by_owner[of sid uid st] c show ?thesis by (intro conjI)
qed

lemmas share_eval = getFileByToken_def deactivateShare_def shareState_def theShare_def
  emptyState_def mkFile_def

theorem share_resolve_valid_iff_witness:
  "distinct (map token (shares shareState))
   \<and> getFileByToken 50 ''tok-1'' shareState = Inr (mkFile ''f2'' ''u1'' ''live.txt'' [] False 20, theShare)
   \<and> getFileByToken 100 ''tok-1'' shareState = Inl (CustomError ''Share link not found or expired'' 404)
   \<and> getFileByToken 50 ''tok-1'' (snd (deleteFile 40 ''f2'' ''u1'' shareState))
       = Inl (CustomError ''File not found or has been deleted'' 404)
   \<and> fst (deactivateShare ''s1'' ''u1'' shareState) = Inr ()
   \<and> (\<exists>e. getFileByToken 50 (token theShare) (snd (deactivateShare ''s1'' ''u1'' shareState)) = Inl e
          \<and> statusCode e = 404)"
proof -
  have h: "distinct (map token (shares shareState))" by (simp add: share_eval)
  note T = share_resolve_valid_iff[OF h, where s = theShare and sid = "''s1''" and uid = "''u1''"
      and now' = 50]
  have a: "getFileByToken 50 ''tok-1'' shareState = Inr (mkFile ''f2'' ''u1'' ''live.txt'' [] False 20, theShare)"
    by (simp add: share_eval)
  have b: "getFileByToken 100 ''tok-1'' shareState = Inl (CustomError ''Share link not found or expired'' 404)"
    by (simp add: share_eval)
  have c: "getFileByToken 50 ''tok-1'' (snd (deleteFile 40 ''f2'' ''u1'' shareState))
       = Inl (CustomError ''File not found or has been deleted'' 404)"
    by (simp add: share_eval deleteFile_def)
  have d: "fst (deactivateShare ''s1'' ''u1'' shareState) = Inr ()"
    by (simp add: share_eval)
  have m: "theShare \<in> set (shares shareState) \<and> share_id theShare = ''s1''"
    by (simp add: share_eval)
  from T m d have e: "\<exists>e. getFileByToken 50 (token theShare) (snd (deactivateShare ''s1'' ''u1'' shareState)) = Inl e
          \<and> statusCode e = 404"
    by blast
  from h a b c d e show ?thesis by (intro conjI)
qed

end
